theory Spec2Isabelle
  imports Complex_Main "HOL-Library.Product_Lexorder"
begin

section \<open>Text\<close>

text \<open>
  A Python \<open>str\<close> is a sequence of Unicode code points; \<open>len\<close> counts code points.
  Text is therefore a list of code points, and \<open>lit\<close> turns an ASCII literal into one.
\<close>

type_synonym pystr = "nat list"

definition lit :: "string \<Rightarrow> pystr" where
  "lit s = map of_char s"

text \<open>
  \<open>str.lower()\<close>. The case tables of Unicode are not repository code: the model maps
  \<open>A\<close>..\<open>Z\<close> to \<open>a\<close>..\<open>z\<close> and leaves every other code point as it is, which is exact
  for ASCII text and for caseless scripts (the CJK keywords of the scorer). Python also
  folds cased letters beyond ASCII (U+00C9 to U+00E9) and expands U+0130 to two code
  points; on text with such letters the keyword tests of the scorer can differ from the
  model. The theorems below evaluate \<open>lower\<close> on ASCII text only, or hold for whatever
  it returns.
\<close>

definition lower_cp :: "nat \<Rightarrow> nat" where
  "lower_cp c = (if 65 \<le> c \<and> c \<le> 90 then c + 32 else c)"

definition lower :: "pystr \<Rightarrow> pystr" where
  "lower s = map lower_cp s"

text \<open>
  The class \<open>\w\<close> of the \<open>re\<close> module on \<open>str\<close> patterns: ASCII letters, digits and the
  underscore, exactly; beyond ASCII Python consults the Unicode database, and the model
  classes every code point from 128 on as a word character. That is right for letters
  and ideographs and wrong for non-ASCII punctuation and spaces (U+FF0C, U+2014,
  U+3000 are not in \<open>\w\<close>), so on such text the tokens and the complexity term can
  differ from the model. The theorems below evaluate the tokenizer on ASCII text only,
  or hold for whatever tokens it returns.
\<close>

definition word_char :: "nat \<Rightarrow> bool" where
  "word_char c \<longleftrightarrow>
     (48 \<le> c \<and> c \<le> 57) \<or> (65 \<le> c \<and> c \<le> 90) \<or> c = 95 \<or> (97 \<le> c \<and> c \<le> 122) \<or> 128 \<le> c"

text \<open>\<open>str.isspace()\<close> of one code point: the full list of Unicode white space.\<close>

definition space_char :: "nat \<Rightarrow> bool" where
  "space_char c \<longleftrightarrow>
     (9 \<le> c \<and> c \<le> 13) \<or> (28 \<le> c \<and> c \<le> 32) \<or> c = 133 \<or> c = 160 \<or> c = 5760 \<or>
     (8192 \<le> c \<and> c \<le> 8202) \<or> c = 8232 \<or> c = 8233 \<or> c = 8239 \<or> c = 8287 \<or> c = 12288"

text \<open>
  The maximal runs of characters satisfying \<open>P\<close>, left to right; \<open>cur\<close> is the run being
  read.
\<close>

fun runs :: "(nat \<Rightarrow> bool) \<Rightarrow> pystr \<Rightarrow> pystr \<Rightarrow> pystr list" where
  "runs P cur [] = (if cur = [] then [] else [cur])"
| "runs P cur (c # cs) =
     (if P c then runs P (cur @ [c]) cs
      else (if cur = [] then [] else [cur]) @ runs P [] cs)"

text \<open>
  \<open>re.findall(r'\b\w{2,}\b', s)\<close>: a match starts at a word boundary, takes word
  characters greedily and must end at a word boundary, so the matches are the maximal
  runs of word characters that have at least two characters.
\<close>

definition findall_words :: "pystr \<Rightarrow> pystr list" where
  "findall_words s = filter (\<lambda>w. 2 \<le> length w) (runs word_char [] s)"

text \<open>\<open>s.split()\<close>: the maximal runs of characters that are not white space.\<close>

definition split_ws :: "pystr \<Rightarrow> pystr list" where
  "split_ws s = runs (\<lambda>c. \<not> space_char c) [] s"

text \<open>\<open>kw in s\<close> on strings: \<open>kw\<close> occurs in \<open>s\<close> as a contiguous substring.\<close>

fun starts_with :: "pystr \<Rightarrow> pystr \<Rightarrow> bool" where
  "starts_with s [] = True"
| "starts_with [] (k # ks) = False"
| "starts_with (c # cs) (k # ks) = (c = k \<and> starts_with cs ks)"

fun py_in :: "pystr \<Rightarrow> pystr \<Rightarrow> bool" where
  "py_in kw [] = (kw = [])"
| "py_in kw (c # cs) = (starts_with (c # cs) kw \<or> py_in kw cs)"

section \<open>Tokenizer and significance scorer (memory-log.py)\<close>

text \<open>
  \<open>extract_tokens\<close>: \<open>list(set(tokens))[:20]\<close>. The iteration order of a Python set of
  strings is not specified; the model lists the distinct tokens in the order \<open>remdups\<close>
  leaves them. Only the number of tokens and set membership are used below.
\<close>

definition extract_tokens :: "pystr \<Rightarrow> pystr list" where
  "extract_tokens s = take 20 (remdups (findall_words (lower s)))"

definition technical_keywords :: "pystr list" where
  "technical_keywords =
     [lit ''code'', lit ''function'', lit ''api'', lit ''database'', lit ''design'',
      lit ''architecture'', lit ''config'', lit ''system'', lit ''algorithm'',
      lit ''implement'', lit ''optimization'']"

definition important_keywords :: "pystr list" where
  "important_keywords =
     [lit ''important'', [37325, 35201], lit ''critical'', lit ''must'', [24517, 39035],
      lit ''security'', [23433, 20840]]"

definition action_keywords :: "pystr list" where
  "action_keywords =
     [lit ''how to'', [24590, 26679], [22914, 20309], lit ''follow these'', [25353, 29031],
      lit ''step'']"

text \<open>
  \<open>score_significance(q, a)\<close>. Python floats are modelled by exact rationals; every
  constant of the source is a decimal fraction. The third parameter \<open>prev_topic\<close> of the
  source is never read and is left out.
\<close>

definition length_factor :: "pystr \<Rightarrow> rat" where
  "length_factor a = min (of_nat (length a) / 500) 1 * (3 / 10)"

definition complexity_factor :: "pystr \<Rightarrow> rat" where
  "complexity_factor q = min (of_nat (length (extract_tokens q)) / 8) 1 * (2 / 10)"

definition score_significance :: "pystr \<Rightarrow> pystr option \<Rightarrow> rat" where
  "score_significance q ao =
     (case ao of
        None \<Rightarrow> 0
      | Some a \<Rightarrow>
          (let score = 0 + length_factor a;
               score = score + complexity_factor q;
               score = (if \<exists>kw \<in> set technical_keywords. py_in kw (lower a)
                        then score + 25 / 100 else score);
               score = (if \<exists>kw \<in> set important_keywords.
                             py_in kw (lower a) \<or> py_in kw (lower q)
                        then score + 15 / 100 else score);
               score = (if \<exists>kw \<in> set action_keywords.
                             py_in kw (lower a) \<or> py_in kw (lower q)
                        then score + 1 / 10 else score)
           in min score 1))"

section \<open>The index document\<close>

text \<open>
  The index is one JSON document. \<open>add_qa\<close> writes every timestamp as the ISO-8601
  string \<open>datetime.utcnow().isoformat() + 'Z'\<close>, and \<open>parse_timestamp\<close> of the extractor
  reads it as a string; a JSON document can also hold a number there, so both are values
  of the field.
\<close>

datatype jtime = TStr pystr | TNum rat

text \<open>
  One Q-A entry. The JSON keys \<open>q\<close> and \<open>a\<close> are the fields \<open>q_text\<close> and \<open>a_text\<close>; a
  JSON \<open>null\<close> answer is \<open>None\<close>.
\<close>

record qa_entry =
  seq :: int
  timestamp :: jtime
  user :: pystr
  q_text :: pystr
  q_tokens :: "pystr list"
  q_hash :: pystr
  a_text :: "pystr option"
  a_significance :: rat
  a_tokens :: int
  topic_tags :: "pystr list"

record session =
  session_id :: pystr
  last_updated :: pystr
  qa_sequence :: "qa_entry list"

record ref =
  ref_session :: pystr
  ref_seq :: int

record recency =
  rec_session :: pystr
  rec_seq :: int
  rec_timestamp :: jtime

record indices =
  by_topic :: "pystr \<rightharpoonup> ref list"
  by_recency :: "recency list"
  by_semantic_hash :: "pystr \<rightharpoonup> ref"

text \<open>
  The counters \<open>stored_answers_count\<close> and \<open>empty_answers_count\<close> are read with
  \<open>.get(key, 0)\<close>: \<open>None\<close> is an absent key.
\<close>

record meta =
  total_qa_pairs :: int
  stored_answers :: int
  stored_answers_count :: "int option"
  empty_answers_count :: "int option"
  meta_last_updated :: pystr

record document =
  metadata :: meta
  sessions :: "session list"
  index :: indices

text \<open>The truth value of an optional string: \<open>None\<close> and the empty string are false.\<close>

definition truthy :: "pystr option \<Rightarrow> bool" where
  "truthy ao = (case ao of None \<Rightarrow> False | Some s \<Rightarrow> s \<noteq> [])"

text \<open>
  The index file on disk: absent, present but not valid JSON, or holding a document.
\<close>

datatype 'a on_disk = Missing | Malformed | Doc 'a

text \<open>
  What \<open>add_qa\<close> takes from outside the program: the clock, the MD5 digest of
  \<open>hashlib\<close> (hex digits of the encoded text) and whether the final write succeeds.
  \<open>OpenFails\<close>: \<open>open(INDEX_FILE, 'w')\<close> raises and the file is untouched.
  \<open>DumpFails\<close>: the file was truncated by \<open>open\<close> and \<open>json.dump\<close> raises part-way.
\<close>

datatype write_result = WriteOk | OpenFails | DumpFails

record env =
  now :: pystr
  md5_hex :: "pystr \<Rightarrow> pystr"
  write_outcome :: write_result

definition hash_text :: "env \<Rightarrow> pystr \<Rightarrow> pystr" where
  "hash_text E s = md5_hex E s"

text \<open>\<open>max(xs, default=d)\<close> on integers.\<close>

fun py_max :: "int list \<Rightarrow> int \<Rightarrow> int" where
  "py_max [] d = d"
| "py_max (x # xs) d = fold max xs x"

text \<open>
  \<open>get_next_seq\<close>: the loop over the sessions returns at the first session with the
  given id; a missing or malformed file gives 1 (the \<open>except\<close> clause).
\<close>

fun next_seq_in :: "session list \<Rightarrow> pystr \<Rightarrow> int" where
  "next_seq_in [] sid = 1"
| "next_seq_in (s # ss) sid =
     (if session_id s = sid then py_max (map seq (qa_sequence s)) 0 + 1
      else next_seq_in ss sid)"

definition get_next_seq :: "document on_disk \<Rightarrow> pystr \<Rightarrow> int" where
  "get_next_seq f sid = (case f of Doc data \<Rightarrow> next_seq_in (sessions data) sid | _ \<Rightarrow> 1)"

text \<open>
  The loop "find or create session" of \<open>add_qa\<close>: the entry is appended to the first
  session with the given id and the loop breaks; \<open>None\<close> is \<open>session_found = False\<close>.
\<close>

fun append_entry :: "session list \<Rightarrow> pystr \<Rightarrow> qa_entry \<Rightarrow> pystr \<Rightarrow> session list option" where
  "append_entry [] sid e t = None"
| "append_entry (s # ss) sid e t =
     (if session_id s = sid
      then Some (s\<lparr>qa_sequence := qa_sequence s @ [e], last_updated := t\<rparr> # ss)
      else map_option ((#) s) (append_entry ss sid e t))"

text \<open>The loop over \<open>topic_tags\<close> that appends the reference to each tag's list.\<close>

fun add_topic_refs :: "(pystr \<rightharpoonup> ref list) \<Rightarrow> pystr list \<Rightarrow> ref \<Rightarrow> (pystr \<rightharpoonup> ref list)" where
  "add_topic_refs m [] r = m"
| "add_topic_refs m (tag # tags) r =
     add_topic_refs (m(tag \<mapsto> (case m tag of None \<Rightarrow> [] | Some rs \<Rightarrow> rs) @ [r])) tags r"

definition update_metadata :: "meta \<Rightarrow> pystr option \<Rightarrow> pystr \<Rightarrow> meta" where
  "update_metadata m a t =
     (let m = m\<lparr>total_qa_pairs := total_qa_pairs m + 1\<rparr>;
          m = (if truthy a
               then m\<lparr>stored_answers := stored_answers m + 1,
                      stored_answers_count :=
                        Some ((case stored_answers_count m of None \<Rightarrow> 0 | Some c \<Rightarrow> c) + 1)\<rparr>
               else m\<lparr>empty_answers_count :=
                        Some ((case empty_answers_count m of None \<Rightarrow> 0 | Some c \<Rightarrow> c) + 1)\<rparr>)
      in m\<lparr>meta_last_updated := t\<rparr>)"

text \<open>
  How a call of \<open>add_qa\<close> ends.
  \<^item> \<open>IndexFileMissing\<close>: \<open>FileNotFoundError\<close> on reading; prints the error, \<open>sys.exit(1)\<close>.
  \<^item> \<open>IndexUnreadable\<close>: \<open>json.load\<close> raises \<open>JSONDecodeError\<close>, which \<open>add_qa\<close> does not
    catch.
  \<^item> \<open>SessionNotFound sid\<close>: prints \<open>Error: Session sid not found\<close> and returns \<open>False\<close>.
  \<^item> \<open>WriteFailed\<close>: \<open>IOError\<close> on saving; prints the error and returns \<open>False\<close>.
  \<^item> \<open>Added n\<close>: the document was saved with the new entry numbered \<open>n\<close>; returns \<open>True\<close>.
\<close>

datatype add_result =
  IndexFileMissing | IndexUnreadable | SessionNotFound pystr | WriteFailed | Added int

definition clamp01 :: "rat \<Rightarrow> rat" where
  "clamp01 x = max 0 (min 1 x)"

definition new_entry :: "env \<Rightarrow> int \<Rightarrow> pystr \<Rightarrow> pystr \<Rightarrow> pystr option \<Rightarrow> pystr list option \<Rightarrow> rat \<Rightarrow> qa_entry" where
  "new_entry E next_seq usr q a tags significance =
     \<lparr>seq = next_seq, timestamp = TStr (now E), user = usr, q_text = q,
      q_tokens = extract_tokens q, q_hash = hash_text E q, a_text = a,
      a_significance = significance,
      a_tokens = (case a of None \<Rightarrow> 0
                  | Some s \<Rightarrow> if s = [] then 0 else int (length (split_ws s))),
      topic_tags = (case tags of None \<Rightarrow> [] | Some ts \<Rightarrow> ts)\<rparr>"

text \<open>
  The block "update indices" of \<open>add_qa\<close>: the reference is appended to the list of each
  topic tag, put in front of the recency list, and stored under the hash of the question.
\<close>

definition update_indices ::
  "env \<Rightarrow> indices \<Rightarrow> pystr \<Rightarrow> int \<Rightarrow> pystr \<Rightarrow> pystr list option \<Rightarrow> indices" where
  "update_indices E ix sid next_seq q tags =
     (let r = \<lparr>ref_session = sid, ref_seq = next_seq\<rparr>;
          ix = ix\<lparr>by_topic :=
                 add_topic_refs (by_topic ix) (case tags of None \<Rightarrow> [] | Some ts \<Rightarrow> ts) r\<rparr>;
          ix = ix\<lparr>by_recency :=
                 \<lparr>rec_session = sid, rec_seq = next_seq, rec_timestamp = TStr (now E)\<rparr>
                 # by_recency ix\<rparr>
      in ix\<lparr>by_semantic_hash := (by_semantic_hash ix)(hash_text E q \<mapsto> r)\<rparr>)"

text \<open>
  \<open>add_qa\<close>: the call takes the index file and returns how it ended together with the
  index file it leaves behind.
\<close>

definition add_qa ::
  "env \<Rightarrow> document on_disk \<Rightarrow> pystr \<Rightarrow> pystr \<Rightarrow> pystr \<Rightarrow> pystr option \<Rightarrow> pystr list option \<Rightarrow>
     rat option \<Rightarrow> add_result \<times> document on_disk" where
  "add_qa E f sid usr q a tags significance =
     (let significance =
            (case significance of None \<Rightarrow> score_significance q a | Some sg \<Rightarrow> sg);
          significance = clamp01 significance
      in case f of
           Missing \<Rightarrow> (IndexFileMissing, f)
         | Malformed \<Rightarrow> (IndexUnreadable, f)
         | Doc data \<Rightarrow>
             (let next_seq = get_next_seq f sid;
                  qa = new_entry E next_seq usr q a tags significance
              in case append_entry (sessions data) sid qa (now E) of
                   None \<Rightarrow> (SessionNotFound sid, f)
                 | Some ss \<Rightarrow>
                     (let data = data\<lparr>sessions := ss,
                                      index := update_indices E (index data) sid next_seq q tags,
                                      metadata := update_metadata (metadata data) a (now E)\<rparr>
                      in case write_outcome E of
                           WriteOk \<Rightarrow> (Added next_seq, Doc data)
                         | OpenFails \<Rightarrow> (WriteFailed, f)
                         | DumpFails \<Rightarrow> (WriteFailed, Malformed))))"

text \<open>
  The session that an id names: the first one in the document with that id, the one
  every loop over the sessions stops at.
\<close>

definition first_session :: "document \<Rightarrow> pystr \<Rightarrow> session option" where
  "first_session data sid = find (\<lambda>s. session_id s = sid) (sessions data)"

text \<open>
  The sequence invariant of a session: the sequence numbers are strictly increasing in
  insertion order, and the first one, if there is one, is 1.
\<close>

definition seqs_ok :: "session \<Rightarrow> bool" where
  "seqs_ok s \<longleftrightarrow>
     sorted_wrt (<) (map seq (qa_sequence s)) \<and>
     (qa_sequence s = [] \<or> seq (hd (qa_sequence s)) = 1)"

definition store_ok :: "document \<Rightarrow> bool" where
  "store_ok data \<longleftrightarrow> list_all seqs_ok (sessions data)"

text \<open>The documents that successful appends lead to from a given document.\<close>

inductive reachable :: "document \<Rightarrow> document \<Rightarrow> bool" where
  start: "reachable d d"
| append: "reachable d0 d \<Longrightarrow> add_qa E (Doc d) sid usr q a tags sg = (Added n, Doc d')
           \<Longrightarrow> reachable d0 d'"

text \<open>
  Consistency of the secondary indices: every reference of the topic index, of the
  recency list and of the hash index names a session of the document and a sequence
  number that an entry of that session carries.
\<close>

definition ref_present :: "document \<Rightarrow> pystr \<Rightarrow> int \<Rightarrow> bool" where
  "ref_present data sid n \<longleftrightarrow>
     (\<exists>s \<in> set (sessions data). session_id s = sid \<and> n \<in> set (map seq (qa_sequence s)))"

definition index_consistent :: "document \<Rightarrow> bool" where
  "index_consistent data \<longleftrightarrow>
     (\<forall>rs \<in> ran (by_topic (index data)).
        \<forall>r \<in> set rs. ref_present data (ref_session r) (ref_seq r)) \<and>
     (\<forall>r \<in> set (by_recency (index data)). ref_present data (rec_session r) (rec_seq r)) \<and>
     (\<forall>r \<in> ran (by_semantic_hash (index data)).
        ref_present data (ref_session r) (ref_seq r))"

section \<open>Query engine (memory-load.py)\<close>

text \<open>Exceptions that reach the caller, and the result of a call that may raise.\<close>

datatype exn = TypeError | JSONDecodeError | ZeroDivisionError

datatype 'a py = Raise exn | Return 'a

text \<open>
  Python slices \<open>xs[i:]\<close> and \<open>xs[:j]\<close>: a negative bound counts from the end, and a
  bound outside the list is clipped.
\<close>

definition slice_from :: "int \<Rightarrow> 'a list \<Rightarrow> 'a list" where
  "slice_from i xs = (if i < 0 then drop (nat (int (length xs) + i)) xs else drop (nat i) xs)"

definition slice_to :: "int \<Rightarrow> 'a list \<Rightarrow> 'a list" where
  "slice_to j xs = (if j < 0 then take (nat (int (length xs) + j)) xs else take (nat j) xs)"

text \<open>One dictionary of the list \<open>relevant\<close>.\<close>

record hit =
  hit_score :: rat
  hit_session :: pystr
  hit_seq :: int
  hit_q :: pystr
  hit_a :: "pystr option"
  hit_significance :: rat
  hit_timestamp :: jtime

text \<open>\<open>len(query_tokens & qa_tokens)\<close>, both taken as sets.\<close>

definition overlap :: "pystr list \<Rightarrow> pystr list \<Rightarrow> nat" where
  "overlap query_tokens qa_tokens =
     length (remdups (filter (\<lambda>t. t \<in> set qa_tokens) query_tokens))"

text \<open>
  The body of the inner loop for one entry that was not skipped: the score is the
  overlap, times 1.5 when the session is the one asked for.
\<close>

definition make_hit :: "pystr list \<Rightarrow> pystr option \<Rightarrow> session \<Rightarrow> qa_entry \<Rightarrow> hit" where
  "make_hit query_tokens sid s qa =
     \<lparr>hit_score =
        (let score = of_nat (overlap query_tokens (q_tokens qa))
         in if Some (session_id s) = sid then score * (3 / 2) else score),
      hit_session = session_id s, hit_seq = seq qa, hit_q = q_text qa, hit_a = a_text qa,
      hit_significance = a_significance qa, hit_timestamp = timestamp qa\<rparr>"

text \<open>
  The two \<open>continue\<close> conditions: a session is skipped when a session id was given and
  it is another one; an entry is skipped when it has an answer and its significance is
  below \<open>min_significance\<close>.
\<close>

definition skip_session :: "pystr option \<Rightarrow> session \<Rightarrow> bool" where
  "skip_session sid s \<longleftrightarrow> truthy sid \<and> Some (session_id s) \<noteq> sid"

definition skip_entry :: "rat \<Rightarrow> qa_entry \<Rightarrow> bool" where
  "skip_entry min_significance qa \<longleftrightarrow>
     truthy (a_text qa) \<and> a_significance qa < min_significance"

text \<open>The list \<open>relevant\<close> as the two nested loops leave it, before it is sorted.\<close>

definition relevant_pairs :: "document \<Rightarrow> pystr \<Rightarrow> pystr option \<Rightarrow> rat \<Rightarrow> hit list" where
  "relevant_pairs data query sid min_significance =
     concat (map (\<lambda>s. map (make_hit (extract_tokens query) sid s)
                         (filter (\<lambda>qa. \<not> skip_entry min_significance qa) (qa_sequence s)))
                 (filter (\<lambda>s. \<not> skip_session sid s) (sessions data)))"

text \<open>
  The sort key \<open>(-x['score'], -x['timestamp'])\<close>. Unary minus on a \<open>str\<close> raises
  \<open>TypeError\<close>. \<open>list.sort\<close> computes the key of every element before it compares any;
  it is stable, as \<open>sort_key\<close> is, and tuples compare lexicographically.
\<close>

definition neg_timestamp :: "jtime \<Rightarrow> rat py" where
  "neg_timestamp t = (case t of TStr _ \<Rightarrow> Raise TypeError | TNum r \<Rightarrow> Return (- r))"

fun sort_keys :: "hit list \<Rightarrow> (rat \<times> rat) list py" where
  "sort_keys [] = Return []"
| "sort_keys (h # hs) =
     (case neg_timestamp (hit_timestamp h) of
        Raise e \<Rightarrow> Raise e
      | Return t \<Rightarrow>
          (case sort_keys hs of
             Raise e \<Rightarrow> Raise e
           | Return ks \<Rightarrow> Return ((- hit_score h, t) # ks)))"

definition sort_relevant :: "hit list \<Rightarrow> hit list py" where
  "sort_relevant hs =
     (case sort_keys hs of
        Raise e \<Rightarrow> Raise e
      | Return ks \<Rightarrow> Return (map snd (sort_key fst (zip ks hs))))"

definition find_relevant_pairs ::
  "document \<Rightarrow> pystr \<Rightarrow> pystr option \<Rightarrow> int \<Rightarrow> rat \<Rightarrow> hit list py" where
  "find_relevant_pairs data query sid limit min_significance =
     (case sort_relevant (relevant_pairs data query sid min_significance) of
        Raise e \<Rightarrow> Raise e
      | Return hs \<Rightarrow> Return (slice_to limit hs))"

text \<open>One dictionary of the result of \<open>get_recent_context\<close>.\<close>

record recent_item =
  rc_seq :: int
  rc_q :: pystr
  rc_a :: "pystr option"
  rc_timestamp :: jtime

definition recent_view :: "qa_entry \<Rightarrow> recent_item" where
  "recent_view qa =
     \<lparr>rc_seq = seq qa, rc_q = q_text qa, rc_a = a_text qa, rc_timestamp = timestamp qa\<rparr>"

text \<open>
  \<open>get_recent_context\<close>: the loop returns at the first session with the given id, with
  \<open>qa_sequence[-window:] if len(qa_sequence) >= window else qa_sequence\<close>; without such a
  session the result is the empty list.
\<close>

fun recent_in :: "session list \<Rightarrow> pystr \<Rightarrow> int \<Rightarrow> recent_item list" where
  "recent_in [] sid window = []"
| "recent_in (s # ss) sid window =
     (if session_id s \<noteq> sid then recent_in ss sid window
      else map recent_view
             (if int (length (qa_sequence s)) \<ge> window
              then slice_from (- window) (qa_sequence s)
              else qa_sequence s))"

definition get_recent_context :: "document \<Rightarrow> pystr \<Rightarrow> int \<Rightarrow> recent_item list" where
  "get_recent_context data sid window = recent_in (sessions data) sid window"

section \<open>Context builder (context-injection.py)\<close>

text \<open>\<open>str(n)\<close> of an integer, as an f-string prints it.\<close>

fun digits :: "nat \<Rightarrow> pystr" where
  "digits n = (if n < 10 then [48 + n] else digits (n div 10) @ [48 + n mod 10])"

declare digits.simps [simp del]

definition str_int :: "int \<Rightarrow> pystr" where
  "str_int i = (if i < 0 then 45 # digits (nat (- i)) else digits (nat i))"

text \<open>\<open>sep.join(xs)\<close>.\<close>

fun join :: "pystr \<Rightarrow> pystr list \<Rightarrow> pystr" where
  "join sep [] = []"
| "join sep [x] = x"
| "join sep (x # y # ys) = x @ sep @ join sep (y # ys)"

text \<open>
  The lines \<open>load_recent_qa_context\<close> appends for one entry: the question, the answer cut
  to 200 characters when there is one, and an empty line.
\<close>

definition entry_lines :: "qa_entry \<Rightarrow> pystr list" where
  "entry_lines qa =
     [lit ''**['' @ str_int (seq qa) @ lit '']** '' @ q_text qa] @
     (if truthy (a_text qa)
      then (case a_text qa of
              None \<Rightarrow> []
            | Some answer \<Rightarrow>
                [lit ''> '' @ (if length answer > 200 then take 200 answer @ lit ''...''
                                else answer)])
      else []) @
     [[]]"

definition block_lines :: "qa_entry list \<Rightarrow> pystr list" where
  "block_lines recent =
     (if recent \<noteq> []
      then [lit ''## Recent Conversation Context'', []] @ concat (map entry_lines recent)
      else [])"

text \<open>
  \<open>load_recent_qa_context\<close>: a missing index file gives the empty string; a malformed
  one raises (only \<open>FileNotFoundError\<close> is caught). The loop does not stop at the first
  session with the given id.
\<close>

definition load_recent_qa_context :: "document on_disk \<Rightarrow> pystr \<Rightarrow> int \<Rightarrow> pystr py" where
  "load_recent_qa_context f sid window =
     (case f of
        Missing \<Rightarrow> Return []
      | Malformed \<Rightarrow> Raise JSONDecodeError
      | Doc data \<Rightarrow>
          Return (join [10]
            (concat (map (\<lambda>s. block_lines
                                (if int (length (qa_sequence s)) \<ge> window
                                 then slice_from (- window) (qa_sequence s)
                                 else qa_sequence s))
                         (filter (\<lambda>s. \<not> session_id s \<noteq> sid) (sessions data))))))"

section \<open>Snapshot analysis (subagent-summarize.py)\<close>

text \<open>
  The records of the aggregate metadata file that \<open>get_conversations_since\<close> produces,
  with the fields the analysis reads. \<open>topics\<close> and \<open>significance\<close> are read with
  \<open>.get\<close>: an absent key reads as \<open>[]\<close> and as \<open>0\<close>.
\<close>

record question_rec =
  qr_seq :: int
  qr_topics :: "pystr list"

record answer_rec =
  ar_seq :: int
  ar_q :: pystr
  ar_significance :: rat
  ar_a_tokens :: int

text \<open>The metadata dictionary; \<open>None\<close> is an absent key.\<close>

record snapshot =
  cutoff_time :: "pystr option"
  snap_questions :: "question_rec list option"
  snap_answers :: "answer_rec list option"

text \<open>What \<open>json.load\<close> makes of a file that exists.\<close>

datatype 'a loaded = BadJSON | Parsed 'a

text \<open>
  The extraction directory as \<open>read_extracted_files\<close> sees it: absent, or holding the
  files that match \<open>*-qa.json\<close> and, when the subdirectories exist, the sorted \<open>*.txt\<close>
  files of \<open>questions/\<close> and \<open>answers/\<close> as pairs of name and content.
\<close>

datatype ext_dir =
  NoDir
| Dir "snapshot loaded list" "(pystr \<times> pystr) list option" "(pystr \<times> pystr) list option"

record extracted =
  ex_metadata :: snapshot
  ex_questions :: "(pystr \<times> pystr) list"
  ex_answers :: "(pystr \<times> pystr) list"
  question_count :: nat
  answer_count :: nat

text \<open>A dictionary with the key \<open>error\<close>, or the dictionary of a normal result.\<close>

datatype 'a or_error = Error pystr | Ok 'a

definition read_extracted_files :: "pystr \<Rightarrow> ext_dir \<Rightarrow> extracted or_error py" where
  "read_extracted_files path d =
     (case d of
        NoDir \<Rightarrow> Return (Error (lit ''Directory not found: '' @ path))
      | Dir metadata_file questions_dir answers_dir \<Rightarrow>
          (case metadata_file of
             [] \<Rightarrow> Return (Error (lit ''No metadata file found in '' @ path))
           | m # _ \<Rightarrow>
               (case m of
                  BadJSON \<Rightarrow> Raise JSONDecodeError
                | Parsed md \<Rightarrow>
                    (let questions = (case questions_dir of None \<Rightarrow> [] | Some fs \<Rightarrow> fs);
                         answers = (case answers_dir of None \<Rightarrow> [] | Some fs \<Rightarrow> fs)
                     in Return (Ok \<lparr>ex_metadata = md, ex_questions = questions,
                                     ex_answers = answers,
                                     question_count = length questions,
                                     answer_count = length answers\<rparr>)))))"

record high_rec =
  hr_seq :: int
  hr_q_preview :: pystr
  hr_significance :: rat
  hr_tokens :: int

record low_rec =
  lr_seq :: int
  lr_q_preview :: pystr
  lr_significance :: rat

text \<open>
  The analysis dictionary. \<open>topics\<close> is a Python dict, kept in insertion order because
  \<open>max\<close> over it returns the first key with the largest count.
\<close>

record analysis =
  period :: "pystr option"
  total_questions :: nat
  total_answers :: nat
  topics :: "(pystr \<times> nat) list"
  high_significance_answers :: "high_rec list"
  low_significance_answers :: "low_rec list"
  missing_answers :: "int list"
  patterns :: "pystr list"

text \<open>\<open>topics[t] = topics.get(t, 0) + 1\<close>.\<close>

fun count_topic :: "(pystr \<times> nat) list \<Rightarrow> pystr \<Rightarrow> (pystr \<times> nat) list" where
  "count_topic [] t = [(t, 1)]"
| "count_topic ((k, n) # kvs) t =
     (if k = t then (k, n + 1) # kvs else (k, n) # count_topic kvs t)"

definition count_topics :: "question_rec list \<Rightarrow> (pystr \<times> nat) list" where
  "count_topics qs = fold (\<lambda>q ts. fold (\<lambda>t ts. count_topic ts t) (qr_topics q) ts) qs []"

text \<open>\<open>max(topics, key=topics.get)\<close> on a non-empty dict: the first key with the largest count.\<close>

fun max_key :: "pystr \<times> nat \<Rightarrow> (pystr \<times> nat) list \<Rightarrow> pystr" where
  "max_key best [] = fst best"
| "max_key best (kv # kvs) = max_key (if snd kv > snd best then kv else best) kvs"

definition high_answers :: "answer_rec list \<Rightarrow> high_rec list" where
  "high_answers as =
     map (\<lambda>a. \<lparr>hr_seq = ar_seq a, hr_q_preview = ar_q a, hr_significance = ar_significance a,
                hr_tokens = ar_a_tokens a\<rparr>)
         (filter (\<lambda>a. ar_significance a \<ge> 85 / 100) as)"

definition low_answers :: "answer_rec list \<Rightarrow> low_rec list" where
  "low_answers as =
     map (\<lambda>a. \<lparr>lr_seq = ar_seq a, lr_q_preview = ar_q a, lr_significance = ar_significance a\<rparr>)
         (filter (\<lambda>a. \<not> ar_significance a \<ge> 85 / 100 \<and> ar_significance a < 5 / 10) as)"

text \<open>\<open>sorted(list(q_seqs - a_seqs))\<close>, the two being sets of sequence numbers.\<close>

definition missing_seqs :: "question_rec list \<Rightarrow> answer_rec list \<Rightarrow> int list" where
  "missing_seqs qs as =
     sort (remdups (filter (\<lambda>n. n \<notin> set (map ar_seq as)) (map qr_seq qs)))"

text \<open>
  The block "detect patterns". The gate is \<open>analysis['total_answers']\<close>, the number of
  answer files read; the mean is taken over the answers of the metadata, and dividing
  by their number raises \<open>ZeroDivisionError\<close> when there are none.
\<close>

definition quality_patterns :: "nat \<Rightarrow> answer_rec list \<Rightarrow> pystr list py" where
  "quality_patterns n_answer_files as =
     (if n_answer_files > 5
      then (if length as = 0 then Raise ZeroDivisionError
            else (let avg_significance = sum_list (map ar_significance as) / of_nat (length as)
                  in Return ((if avg_significance > 8 / 10
                              then [lit ''High quality conversation period''] else []) @
                             (if avg_significance < 5 / 10
                              then [lit ''Low quality/off-topic conversation''] else []))))
      else Return [])"

definition topic_patterns :: "(pystr \<times> nat) list \<Rightarrow> pystr list" where
  "topic_patterns ts =
     (case ts of [] \<Rightarrow> [] | kv # kvs \<Rightarrow> [lit ''Focus topic: '' @ max_key kv kvs])"

definition analyze_conversations :: "extracted or_error \<Rightarrow> analysis or_error py" where
  "analyze_conversations data =
     (case data of
        Error msg \<Rightarrow> Return (Error msg)
      | Ok d \<Rightarrow>
          (let md = ex_metadata d;
               as = (case snap_answers md of None \<Rightarrow> [] | Some as \<Rightarrow> as);
               ts = (case snap_questions md of None \<Rightarrow> [] | Some qs \<Rightarrow> count_topics qs)
           in case quality_patterns (length (ex_answers d)) as of
                Raise e \<Rightarrow> Raise e
              | Return ps \<Rightarrow>
                  Return (Ok \<lparr>period = cutoff_time md,
                               total_questions = length (ex_questions d),
                               total_answers = length (ex_answers d),
                               topics = ts,
                               high_significance_answers = high_answers as,
                               low_significance_answers = low_answers as,
                               missing_answers =
                                 (case snap_questions md of
                                    None \<Rightarrow> [] | Some qs \<Rightarrow> missing_seqs qs as),
                               patterns = ps @ topic_patterns ts\<rparr>)))"

text \<open>
  The first two steps of the script's main block: \<open>read_extracted_files\<close>, then
  \<open>analyze_conversations\<close> on what it returned. (\<open>generate_report\<close> then answers an error
  dictionary with one line that carries the message.)
\<close>

definition analyze_dir :: "pystr \<Rightarrow> ext_dir \<Rightarrow> analysis or_error py" where
  "analyze_dir path d =
     (case read_extracted_files path d of
        Raise e \<Rightarrow> Raise e
      | Return data \<Rightarrow> analyze_conversations data)"

section \<open>Example data\<close>

text \<open>
  An environment, and a document with one session and one entry as \<open>add_qa\<close> writes
  it. The digest of the example environment is a stand-in: no theorem depends on what
  the digest function computes.
\<close>

definition ex_env :: env where
  "ex_env = \<lparr>now = lit ''2024-05-01T10:00:00.000000Z'', md5_hex = (\<lambda>s. s),
             write_outcome = WriteOk\<rparr>"

definition ex_entry :: qa_entry where
  "ex_entry =
     \<lparr>seq = 1, timestamp = TStr (lit ''2024-05-01T09:00:00.000000Z''), user = lit ''alice'',
      q_text = lit ''hello world'', q_tokens = [lit ''hello'', lit ''world''],
      q_hash = lit ''hello world'', a_text = None, a_significance = 0, a_tokens = 0,
      topic_tags = []\<rparr>"

definition ex_doc :: document where
  "ex_doc =
     \<lparr>metadata = \<lparr>total_qa_pairs = 1, stored_answers = 0, stored_answers_count = None,
                  empty_answers_count = Some 1,
                  meta_last_updated = lit ''2024-05-01T09:00:00.000000Z''\<rparr>,
      sessions = [\<lparr>session_id = lit ''main'',
                   last_updated = lit ''2024-05-01T09:00:00.000000Z'',
                   qa_sequence = [ex_entry]\<rparr>],
      index = \<lparr>by_topic = Map.empty,
               by_recency = [\<lparr>rec_session = lit ''main'', rec_seq = 1,
                              rec_timestamp = TStr (lit ''2024-05-01T09:00:00.000000Z'')\<rparr>],
               by_semantic_hash =
                 [lit ''hello world'' \<mapsto> \<lparr>ref_session = lit ''main'', ref_seq = 1\<rparr>]\<rparr>\<rparr>"

text \<open>
  A document whose timestamps are numbers, with an answered entry of significance 0.2
  and an answered entry of significance 0.9.
\<close>

definition ex_low :: qa_entry where
  "ex_low =
     \<lparr>seq = 1, timestamp = TNum 10, user = lit ''alice'', q_text = lit ''hello world'',
      q_tokens = [lit ''hello'', lit ''world''], q_hash = lit ''h1'', a_text = Some (lit ''hi''),
      a_significance = 2 / 10, a_tokens = 1, topic_tags = []\<rparr>"

definition ex_high :: qa_entry where
  "ex_high =
     \<lparr>seq = 2, timestamp = TNum 20, user = lit ''alice'', q_text = lit ''hello again'',
      q_tokens = [lit ''hello'', lit ''again''], q_hash = lit ''h2'',
      a_text = Some (lit ''use the api''), a_significance = 9 / 10, a_tokens = 3,
      topic_tags = []\<rparr>"

definition ex_num_session :: session where
  "ex_num_session =
     \<lparr>session_id = lit ''main'', last_updated = lit ''20'', qa_sequence = [ex_low, ex_high]\<rparr>"

definition ex_num_doc :: document where
  "ex_num_doc =
     \<lparr>metadata = \<lparr>total_qa_pairs = 2, stored_answers = 2, stored_answers_count = Some 2,
                  empty_answers_count = None, meta_last_updated = lit ''20''\<rparr>,
      sessions = [ex_num_session],
      index = \<lparr>by_topic = Map.empty, by_recency = [], by_semantic_hash = Map.empty\<rparr>\<rparr>"

text \<open>
  The answer of the scorer's worked example: 600 characters that contain the words
  \<open>architecture\<close> and \<open>important\<close>.
\<close>

definition ex_question :: pystr where
  "ex_question = lit ''how to optimize the database architecture''"

definition ex_answer :: pystr where
  "ex_answer = lit ''architecture important'' @ replicate 578 120"

text \<open>
  A snapshot whose metadata lists six answers of significance 0.9 each; the names and
  contents of six answer files; what \<open>read_extracted_files\<close> returns for the snapshot
  with these files; and the analysis of the snapshot when its directory \<open>answers/\<close> is
  absent.
\<close>

definition ex_six_answers :: "answer_rec list" where
  "ex_six_answers =
     map (\<lambda>n. \<lparr>ar_seq = n, ar_q = lit ''q'', ar_significance = 9 / 10, ar_a_tokens = 3\<rparr>)
         [1, 2, 3, 4, 5, 6]"

definition ex_snapshot :: snapshot where
  "ex_snapshot =
     \<lparr>cutoff_time = Some (lit ''2024-05-01T09:00:00Z''), snap_questions = Some [],
      snap_answers = Some ex_six_answers\<rparr>"

definition ex_answer_files :: "(pystr \<times> pystr) list" where
  "ex_answer_files =
     map (\<lambda>n. (lit ''t-'' @ str_int n @ lit ''.txt'', lit ''text'')) [1, 2, 3, 4, 5, 6]"

definition ex_extracted :: extracted where
  "ex_extracted =
     \<lparr>ex_metadata = ex_snapshot, ex_questions = [], ex_answers = ex_answer_files,
      question_count = 0, answer_count = 6\<rparr>"

definition ex_analysis :: analysis where
  "ex_analysis =
     \<lparr>period = Some (lit ''2024-05-01T09:00:00Z''), total_questions = 0, total_answers = 0,
      topics = [],
      high_significance_answers =
        map (\<lambda>n. \<lparr>hr_seq = n, hr_q_preview = lit ''q'', hr_significance = 9 / 10,
                   hr_tokens = 3\<rparr>) [1, 2, 3, 4, 5, 6],
      low_significance_answers = [], missing_answers = [], patterns = []\<rparr>"

text \<open>
  A document as \<open>add_qa\<close> leaves it after three appends to one session: every timestamp
  is an ISO-8601 string. The first entry has an answer of significance 0.2, the second
  an answer of significance 0.9 and the third no answer.
\<close>

definition ex_str_low :: qa_entry where
  "ex_str_low =
     \<lparr>seq = 1, timestamp = TStr (lit ''2024-05-01T09:00:00.000000Z''), user = lit ''alice'',
      q_text = lit ''hello world'', q_tokens = [lit ''hello'', lit ''world''],
      q_hash = lit ''h1'', a_text = Some (lit ''hi''), a_significance = 2 / 10, a_tokens = 1,
      topic_tags = []\<rparr>"

definition ex_str_high :: qa_entry where
  "ex_str_high =
     \<lparr>seq = 2, timestamp = TStr (lit ''2024-05-01T09:05:00.000000Z''), user = lit ''alice'',
      q_text = lit ''hello again'', q_tokens = [lit ''hello'', lit ''again''],
      q_hash = lit ''h2'', a_text = Some (lit ''use the api''), a_significance = 9 / 10,
      a_tokens = 3, topic_tags = []\<rparr>"

definition ex_str_open :: qa_entry where
  "ex_str_open =
     \<lparr>seq = 3, timestamp = TStr (lit ''2024-05-01T09:10:00.000000Z''), user = lit ''alice'',
      q_text = lit ''hello there'', q_tokens = [lit ''hello'', lit ''there''],
      q_hash = lit ''h3'', a_text = None, a_significance = 0, a_tokens = 0,
      topic_tags = []\<rparr>"

definition ex_str_session :: session where
  "ex_str_session =
     \<lparr>session_id = lit ''main'', last_updated = lit ''2024-05-01T09:10:00.000000Z'',
      qa_sequence = [ex_str_low, ex_str_high, ex_str_open]\<rparr>"

definition ex_str_doc :: document where
  "ex_str_doc =
     \<lparr>metadata = \<lparr>total_qa_pairs = 3, stored_answers = 2, stored_answers_count = Some 2,
                  empty_answers_count = Some 1,
                  meta_last_updated = lit ''2024-05-01T09:10:00.000000Z''\<rparr>,
      sessions = [ex_str_session],
      index = \<lparr>by_topic = Map.empty, by_recency = [], by_semantic_hash = Map.empty\<rparr>\<rparr>"

text \<open>
  The text that \<open>load_recent_qa_context\<close> prints for the session of \<open>ex_num_doc\<close> when
  every entry is shown; 10 is the line feed.
\<close>

definition ex_num_context :: pystr where
  "ex_num_context =
     lit ''## Recent Conversation Context'' @ [10, 10] @
     lit ''**[1]** hello world'' @ [10] @ lit ''> hi'' @ [10, 10] @
     lit ''**[2]** hello again'' @ [10] @ lit ''> use the api'' @ [10]"

section \<open>Appending to the index: sequence numbers\<close>

lemma append_entry_None_iff:
  "append_entry ss sid e t = None \<longleftrightarrow> sid \<notin> set (map session_id ss)"
  by (induction ss) auto

lemma append_entry_Some:
  "append_entry ss sid e t = Some ss' \<Longrightarrow>
     \<exists>pre s post. ss = pre @ s # post \<and> sid \<notin> set (map session_id pre) \<and> session_id s = sid \<and>
        ss' = pre @ s\<lparr>qa_sequence := qa_sequence s @ [e], last_updated := t\<rparr> # post"
proof (induction ss arbitrary: ss')
  case Nil
  then show ?case by simp
next
  case (Cons x xs)
  show ?case
  proof (cases "session_id x = sid")
    case True
    then have "ss' = x\<lparr>qa_sequence := qa_sequence x @ [e], last_updated := t\<rparr> # xs"
      using Cons.prems by simp
    then have "x # xs = [] @ x # xs \<and> sid \<notin> set (map session_id []) \<and> session_id x = sid \<and>
        ss' = [] @ x\<lparr>qa_sequence := qa_sequence x @ [e], last_updated := t\<rparr> # xs"
      using True by simp
    then show ?thesis by blast
  next
    case False
    then obtain ys where ys: "append_entry xs sid e t = Some ys" "ss' = x # ys"
      using Cons.prems by auto
    from Cons.IH [OF ys(1)] obtain pre s post where
      h: "xs = pre @ s # post" "sid \<notin> set (map session_id pre)" "session_id s = sid"
         "ys = pre @ s\<lparr>qa_sequence := qa_sequence s @ [e], last_updated := t\<rparr> # post"
      by blast
    have "x # xs = (x # pre) @ s # post \<and> sid \<notin> set (map session_id (x # pre)) \<and>
        session_id s = sid \<and>
        ss' = (x # pre) @ s\<lparr>qa_sequence := qa_sequence s @ [e], last_updated := t\<rparr> # post"
      using h ys(2) False by auto
    then show ?thesis by blast
  qed
qed

lemma next_seq_in_split:
  "sid \<notin> set (map session_id pre) \<Longrightarrow> session_id s = sid \<Longrightarrow>
     next_seq_in (pre @ s # post) sid = py_max (map seq (qa_sequence s)) 0 + 1"
  by (induction pre) auto

lemma next_seq_in_unknown:
  "sid \<notin> set (map session_id ss) \<Longrightarrow> next_seq_in ss sid = 1"
  by (induction ss) auto

lemma find_split:
  "sid \<notin> set (map session_id pre) \<Longrightarrow> session_id s = sid \<Longrightarrow>
     find (\<lambda>s. session_id s = sid) (pre @ s # post) = Some s"
  by (induction pre) auto

lemma find_Some_split:
  "find (\<lambda>s. session_id s = sid) ss = Some s \<Longrightarrow>
     \<exists>pre post. ss = pre @ s # post \<and> sid \<notin> set (map session_id pre) \<and> session_id s = sid"
proof (induction ss)
  case Nil
  then show ?case by simp
next
  case (Cons x xs)
  show ?case
  proof (cases "session_id x = sid")
    case True
    then have "x # xs = [] @ s # xs \<and> sid \<notin> set (map session_id []) \<and> session_id s = sid"
      using Cons.prems by simp
    then show ?thesis by blast
  next
    case False
    then have "find (\<lambda>s. session_id s = sid) xs = Some s" using Cons.prems by simp
    then obtain pre post where
      "xs = pre @ s # post" "sid \<notin> set (map session_id pre)" "session_id s = sid"
      using Cons.IH by blast
    then have "x # xs = (x # pre) @ s # post \<and> sid \<notin> set (map session_id (x # pre)) \<and>
        session_id s = sid"
      using False by auto
    then show ?thesis by blast
  qed
qed

lemma py_max_eq: "py_max xs d = (if xs = [] then d else Max (set xs))"
proof (cases xs)
  case Nil
  then show ?thesis by simp
next
  case (Cons y ys)
  then show ?thesis using Max.set_eq_fold [of y ys] by simp
qed

lemma add_qa_Doc:
  "add_qa E (Doc data) sid usr q a tags sg =
     (let n = next_seq_in (sessions data) sid;
          e = new_entry E n usr q a tags
                (clamp01 (case sg of None \<Rightarrow> score_significance q a | Some x \<Rightarrow> x))
      in case append_entry (sessions data) sid e (now E) of
           None \<Rightarrow> (SessionNotFound sid, Doc data)
         | Some ss \<Rightarrow>
             (case write_outcome E of
                WriteOk \<Rightarrow>
                  (Added n,
                   Doc (data\<lparr>sessions := ss,
                             index := update_indices E (index data) sid n q tags,
                             metadata := update_metadata (metadata data) a (now E)\<rparr>))
              | OpenFails \<Rightarrow> (WriteFailed, Doc data)
              | DumpFails \<Rightarrow> (WriteFailed, Malformed)))"
  by (simp add: add_qa_def Let_def get_next_seq_def split: option.splits)

lemma find_None_unknown:
  "find (\<lambda>s. session_id s = sid) ss = None \<longleftrightarrow> sid \<notin> set (map session_id ss)"
  by (auto simp: find_None_iff)

lemma seqs_ok_append:
  assumes "seqs_ok s" "seq e = py_max (map seq (qa_sequence s)) 0 + 1"
  shows "seqs_ok (s\<lparr>qa_sequence := qa_sequence s @ [e], last_updated := t\<rparr>)"
proof (cases "qa_sequence s = []")
  case True
  then show ?thesis using assms by (simp add: seqs_ok_def)
next
  case False
  then have m: "seq e = Max (set (map seq (qa_sequence s))) + 1"
    using assms(2) by (simp add: py_max_eq)
  have "\<forall>x \<in> set (map seq (qa_sequence s)). x < seq e"
  proof
    fix x assume "x \<in> set (map seq (qa_sequence s))"
    then have "x \<le> Max (set (map seq (qa_sequence s)))" by (intro Max_ge) auto
    then show "x < seq e" using m by linarith
  qed
  then show ?thesis using assms(1) False
    by (auto simp: seqs_ok_def sorted_wrt_append)
qed

lemma add_qa_Added:
  assumes "add_qa E (Doc data) sid usr q a tags sg = (Added n, f')"
  shows "\<exists>pre s post e.
           sessions data = pre @ s # post \<and> sid \<notin> set (map session_id pre) \<and>
           session_id s = sid \<and>
           n = py_max (map seq (qa_sequence s)) 0 + 1 \<and>
           e = new_entry E n usr q a tags
                 (clamp01 (case sg of None \<Rightarrow> score_significance q a | Some x \<Rightarrow> x)) \<and>
           f' = Doc (data\<lparr>sessions :=
                              pre @ s\<lparr>qa_sequence := qa_sequence s @ [e],
                                       last_updated := now E\<rparr> # post,
                            index := update_indices E (index data) sid n q tags,
                            metadata := update_metadata (metadata data) a (now E)\<rparr>)"
proof -
  let ?n = "next_seq_in (sessions data) sid"
  let ?e = "new_entry E ?n usr q a tags
              (clamp01 (case sg of None \<Rightarrow> score_significance q a | Some x \<Rightarrow> x))"
  from assms obtain ss where
    ss: "append_entry (sessions data) sid ?e (now E) = Some ss" and
    n: "n = ?n" and
    f: "f' = Doc (data\<lparr>sessions := ss,
                        index := update_indices E (index data) sid ?n q tags,
                        metadata := update_metadata (metadata data) a (now E)\<rparr>)"
    by (auto simp: add_qa_Doc Let_def split: option.splits write_result.splits)
  from append_entry_Some [OF ss] obtain pre s post where
    h: "sessions data = pre @ s # post" "sid \<notin> set (map session_id pre)" "session_id s = sid"
       "ss = pre @ s\<lparr>qa_sequence := qa_sequence s @ [?e], last_updated := now E\<rparr> # post"
    by blast
  have "?n = py_max (map seq (qa_sequence s)) 0 + 1"
    using next_seq_in_split [OF h(2) h(3)] h(1) by simp
  then show ?thesis using h n f by auto
qed


lemma add_qa_store_ok:
  assumes "store_ok d" "add_qa E (Doc d) sid usr q a tags sg = (Added n, Doc d')"
  shows "store_ok d'"
proof -
  from add_qa_Added [OF assms(2)] obtain pre s post e where
    h: "sessions d = pre @ s # post"
       "n = py_max (map seq (qa_sequence s)) 0 + 1"
       "e = new_entry E n usr q a tags
              (clamp01 (case sg of None \<Rightarrow> score_significance q a | Some x \<Rightarrow> x))"
       "sessions d' = pre @ s\<lparr>qa_sequence := qa_sequence s @ [e], last_updated := now E\<rparr> # post"
    by auto
  have "seq e = py_max (map seq (qa_sequence s)) 0 + 1"
    using h(2,3) by (simp add: new_entry_def)
  moreover have "seqs_ok s" using assms(1) h(1) by (simp add: store_ok_def)
  ultimately have "seqs_ok (s\<lparr>qa_sequence := qa_sequence s @ [e], last_updated := now E\<rparr>)"
    by (rule seqs_ok_append [rotated])
  then show ?thesis using assms(1) h(1,4) by (simp add: store_ok_def)
qed

lemma reachable_store_ok: "reachable d0 d \<Longrightarrow> store_ok d0 \<Longrightarrow> store_ok d"
  by (induction rule: reachable.induct) (auto intro: add_qa_store_ok)

lemma get_next_seq_eq:
  "get_next_seq (Doc d) sid =
     (case first_session d sid of
        None \<Rightarrow> 1
      | Some s \<Rightarrow> if qa_sequence s = [] then 1 else Max (set (map seq (qa_sequence s))) + 1)"
proof (cases "first_session d sid")
  case None
  then have "sid \<notin> set (map session_id (sessions d))"
    using find_None_unknown [of sid "sessions d"] by (simp add: first_session_def)
  then show ?thesis using None by (simp add: get_next_seq_def next_seq_in_unknown)
next
  case (Some s)
  then obtain pre post where
    "sessions d = pre @ s # post" "sid \<notin> set (map session_id pre)" "session_id s = sid"
    using find_Some_split unfolding first_session_def by blast
  then show ?thesis using Some next_seq_in_split [of sid pre s post]
    by (simp add: get_next_seq_def py_max_eq)
qed

lemma add_qa_fst_snd:
  assumes "fst (add_qa E (Doc d) sid usr q a tags sg) = Added n"
  shows "\<exists>d'. add_qa E (Doc d) sid usr q a tags sg = (Added n, Doc d')"
proof -
  obtain f' where f: "add_qa E (Doc d) sid usr q a tags sg = (Added n, f')"
    using assms by (cases "add_qa E (Doc d) sid usr q a tags sg") auto
  from add_qa_Added [OF f] obtain d' where "f' = Doc d'" by blast
  then show ?thesis using f by blast
qed

text \<open>
  Claim C5. In every document reached by successful appends from a document in which
  each session's sequence numbers are strictly increasing and start at 1, the same
  holds. \<open>get_next_seq\<close> gives 1 for an unknown session and for an empty one and the
  largest sequence number plus 1 otherwise, and a successful \<open>add_qa\<close> gives exactly that
  number to the entry it appends at the end of the session.
\<close>

theorem sequence_numbers_increase_from_one:
  assumes "store_ok d0" "reachable d0 d"
  shows "store_ok d \<and>
         get_next_seq (Doc d) sid =
           (case first_session d sid of
              None \<Rightarrow> 1
            | Some s \<Rightarrow> if qa_sequence s = [] then 1
                        else Max (set (map seq (qa_sequence s))) + 1) \<and>
         (fst (add_qa E (Doc d) sid usr q a tags sg) = Added n \<longrightarrow>
            n = get_next_seq (Doc d) sid \<and>
            (\<exists>d' s s'. snd (add_qa E (Doc d) sid usr q a tags sg) = Doc d' \<and>
               first_session d sid = Some s \<and> first_session d' sid = Some s' \<and>
               map seq (qa_sequence s') = map seq (qa_sequence s) @ [n] \<and> store_ok d'))"
proof (intro conjI impI)
  show ok: "store_ok d" using assms reachable_store_ok by blast
  show "get_next_seq (Doc d) sid =
           (case first_session d sid of
              None \<Rightarrow> 1
            | Some s \<Rightarrow> if qa_sequence s = [] then 1
                        else Max (set (map seq (qa_sequence s))) + 1)"
    by (rule get_next_seq_eq)
  assume a: "fst (add_qa E (Doc d) sid usr q a tags sg) = Added n"
  then obtain d' where d': "add_qa E (Doc d) sid usr q a tags sg = (Added n, Doc d')"
    using add_qa_fst_snd by blast
  from add_qa_Added [OF d'] obtain pre s post e where
    h: "sessions d = pre @ s # post" "sid \<notin> set (map session_id pre)" "session_id s = sid"
       "n = py_max (map seq (qa_sequence s)) 0 + 1"
       "e = new_entry E n usr q a tags
              (clamp01 (case sg of None \<Rightarrow> score_significance q a | Some x \<Rightarrow> x))"
       "sessions d' = pre @ s\<lparr>qa_sequence := qa_sequence s @ [e], last_updated := now E\<rparr> # post"
    by auto
  show "n = get_next_seq (Doc d) sid"
    using h(1,4) next_seq_in_split [OF h(2,3)] by (simp add: get_next_seq_def)
  let ?s' = "s\<lparr>qa_sequence := qa_sequence s @ [e], last_updated := now E\<rparr>"
  have 1: "first_session d sid = Some s"
    using find_split [OF h(2,3)] h(1) by (simp add: first_session_def)
  have "session_id ?s' = sid" using h(3) by simp
  then have 2: "first_session d' sid = Some ?s'"
    using find_split [OF h(2), of ?s' post] h(6) by (simp add: first_session_def)
  have 3: "map seq (qa_sequence ?s') = map seq (qa_sequence s) @ [n]"
    using h(5) by (simp add: new_entry_def)
  have 4: "store_ok d'" using add_qa_store_ok [OF ok d'] .
  show "\<exists>d' s s'. snd (add_qa E (Doc d) sid usr q a tags sg) = Doc d' \<and>
               first_session d sid = Some s \<and> first_session d' sid = Some s' \<and>
               map seq (qa_sequence s') = map seq (qa_sequence s) @ [n] \<and> store_ok d'"
    using d' 1 2 3 4 by (intro exI [of _ d'] exI [of _ s] exI [of _ ?s']) simp
qed

lemma ex_add_ok:
  "fst (add_qa ex_env (Doc ex_doc) (lit ''main'') (lit ''bob'') (lit ''what is new'')
          None None sg) = Added 2"
  by (simp add: add_qa_Doc Let_def ex_doc_def ex_env_def ex_entry_def split: option.splits)

theorem sequence_numbers_increase_from_one_witness:
  "store_ok ex_doc \<and> reachable ex_doc ex_doc \<and>
   fst (add_qa ex_env (Doc ex_doc) (lit ''main'') (lit ''bob'') (lit ''what is new'')
          None None None) = Added 2 \<and>
   get_next_seq (Doc ex_doc) (lit ''main'') = 2 \<and>
   (\<exists>d' s s'. snd (add_qa ex_env (Doc ex_doc) (lit ''main'') (lit ''bob'') (lit ''what is new'')
          None None None) = Doc d' \<and>
      first_session ex_doc (lit ''main'') = Some s \<and> first_session d' (lit ''main'') = Some s' \<and>
      map seq (qa_sequence s') = map seq (qa_sequence s) @ [2] \<and> store_ok d')"
proof -
  have h1: "store_ok ex_doc" by (simp add: store_ok_def seqs_ok_def ex_doc_def ex_entry_def)
  have h2: "reachable ex_doc ex_doc" by (rule reachable.start)
  note h3 = ex_add_ok [of None]
  show ?thesis
    using sequence_numbers_increase_from_one [OF h1 h2, of "lit ''main''" ex_env "lit ''bob''" "lit ''what is new''" None None None 2]
      h1 h2 h3 by simp
qed

text \<open>
  Claim C8. \<open>add_qa\<close> on a session id that no session of the document carries ends with
  \<open>SessionNotFound\<close> and leaves the index file as it was: no entry, index or counter
  changes and nothing is written.
\<close>

theorem append_unknown_session_no_mutation:
  "sid \<notin> set (map session_id (sessions d)) \<Longrightarrow>
     add_qa E (Doc d) sid usr q a tags sg = (SessionNotFound sid, Doc d)"
  using append_entry_None_iff [of "sessions d" sid]
  by (simp add: add_qa_Doc Let_def)

theorem append_unknown_session_no_mutation_witness:
  "lit ''other'' \<notin> set (map session_id (sessions ex_doc)) \<and>
   add_qa ex_env (Doc ex_doc) (lit ''other'') (lit ''bob'') (lit ''what is new'') None None None
     = (SessionNotFound (lit ''other''), Doc ex_doc)"
proof -
  have h: "lit ''other'' \<notin> set (map session_id (sessions ex_doc))"
    by (simp add: ex_doc_def lit_def)
  show ?thesis using append_unknown_session_no_mutation [OF h] h by simp
qed



section \<open>Significance and index consistency\<close>

lemma length_factor_nonneg: "0 \<le> length_factor a"
  by (simp add: length_factor_def)

lemma complexity_factor_nonneg: "0 \<le> complexity_factor q"
  by (simp add: complexity_factor_def)

lemma score_significance_bounds:
  "0 \<le> score_significance q ao \<and> score_significance q ao \<le> 1"
proof (cases ao)
  case None
  then show ?thesis by (simp add: score_significance_def)
next
  case (Some s)
  have "0 \<le> length_factor s + complexity_factor q"
    using length_factor_nonneg [of s] complexity_factor_nonneg [of q] by linarith
  then show ?thesis using Some
    by (simp add: score_significance_def Let_def)
qed

text \<open>
  Claim C4. For every question and optional answer the score of \<open>score_significance\<close>
  lies between 0 and 1, and it is 0 when there is no answer. When \<open>add_qa\<close> is called
  with an explicit significance and succeeds, the entry it stores at the end of the
  session carries that value clamped to the interval from 0 to 1.
\<close>

theorem significance_in_unit_interval:
  "0 \<le> score_significance q ao \<and> score_significance q ao \<le> 1 \<and>
   score_significance q None = 0 \<and>
   (fst (add_qa E (Doc d) sid usr q ao tags (Some sg)) = Added n \<longrightarrow>
      (\<exists>d' s. snd (add_qa E (Doc d) sid usr q ao tags (Some sg)) = Doc d' \<and>
         first_session d' sid = Some s \<and> qa_sequence s \<noteq> [] \<and>
         seq (last (qa_sequence s)) = n \<and>
         a_significance (last (qa_sequence s)) = max 0 (min 1 sg) \<and>
         0 \<le> a_significance (last (qa_sequence s)) \<and>
         a_significance (last (qa_sequence s)) \<le> 1))"
proof (intro conjI impI)
  show "0 \<le> score_significance q ao" "score_significance q ao \<le> 1"
    using score_significance_bounds by blast+
  show "score_significance q None = 0" by (simp add: score_significance_def)
  assume "fst (add_qa E (Doc d) sid usr q ao tags (Some sg)) = Added n"
  then obtain d' where d': "add_qa E (Doc d) sid usr q ao tags (Some sg) = (Added n, Doc d')"
    using add_qa_fst_snd by blast
  from add_qa_Added [OF d'] obtain pre s post e where
    h: "sid \<notin> set (map session_id pre)" "session_id s = sid"
       "e = new_entry E n usr q ao tags (clamp01 sg)"
       "sessions d' = pre @ s\<lparr>qa_sequence := qa_sequence s @ [e], last_updated := now E\<rparr> # post"
    by auto
  let ?s' = "s\<lparr>qa_sequence := qa_sequence s @ [e], last_updated := now E\<rparr>"
  have "session_id ?s' = sid" using h(2) by simp
  then have 1: "first_session d' sid = Some ?s'"
    using find_split [OF h(1), of ?s' post] h(4) by (simp add: first_session_def)
  have 2: "last (qa_sequence ?s') = e" by simp
  have 3: "seq e = n" "a_significance e = max 0 (min 1 sg)"
    using h(3) by (simp_all add: new_entry_def clamp01_def)
  have 4: "0 \<le> a_significance e" "a_significance e \<le> 1" using 3(2) by simp_all
  show "\<exists>d' s. snd (add_qa E (Doc d) sid usr q ao tags (Some sg)) = Doc d' \<and>
         first_session d' sid = Some s \<and> qa_sequence s \<noteq> [] \<and>
         seq (last (qa_sequence s)) = n \<and>
         a_significance (last (qa_sequence s)) = max 0 (min 1 sg) \<and>
         0 \<le> a_significance (last (qa_sequence s)) \<and>
         a_significance (last (qa_sequence s)) \<le> 1"
    using d' 1 2 3 4 by (intro exI [of _ d'] exI [of _ ?s']) simp
qed

theorem significance_in_unit_interval_witness:
  "fst (add_qa ex_env (Doc ex_doc) (lit ''main'') (lit ''bob'') (lit ''what is new'')
          None None (Some 7)) = Added 2 \<and>
   (\<exists>d' s. snd (add_qa ex_env (Doc ex_doc) (lit ''main'') (lit ''bob'') (lit ''what is new'')
          None None (Some 7)) = Doc d' \<and>
      first_session d' (lit ''main'') = Some s \<and> qa_sequence s \<noteq> [] \<and>
      seq (last (qa_sequence s)) = 2 \<and> a_significance (last (qa_sequence s)) = 1)"
proof -
  note h = ex_add_ok [of "Some 7"]
  show ?thesis
    using significance_in_unit_interval [of "lit ''what is new''" None ex_env ex_doc "lit ''main''" "lit ''bob''" None 7 2] h
    by auto
qed

lemma slice_from_0: "slice_from 0 xs = xs"
  by (simp add: slice_from_def)

lemma recent_in_split:
  "sid \<notin> set (map session_id pre) \<Longrightarrow> session_id s = sid \<Longrightarrow>
     recent_in (pre @ s # post) sid 0 = map recent_view (qa_sequence s)"
  by (induction pre) (auto simp: slice_from_0)

lemma ref_present_mono:
  assumes "sessions d = pre @ s # post"
    "sessions d' = pre @ s\<lparr>qa_sequence := qa_sequence s @ [e], last_updated := t\<rparr> # post"
    "ref_present d x m"
  shows "ref_present d' x m"
proof -
  from assms(3) obtain s0 where
    s0: "s0 \<in> set (sessions d)" "session_id s0 = x" "m \<in> set (map seq (qa_sequence s0))"
    unfolding ref_present_def by blast
  let ?s' = "s\<lparr>qa_sequence := qa_sequence s @ [e], last_updated := t\<rparr>"
  show ?thesis
  proof (cases "s0 = s")
    case True
    then have "?s' \<in> set (sessions d') \<and> session_id ?s' = x \<and> m \<in> set (map seq (qa_sequence ?s'))"
      using s0 assms(2) by auto
    then show ?thesis unfolding ref_present_def by blast
  next
    case False
    then have "s0 \<in> set (sessions d')" using s0(1) assms(1,2) by auto
    then show ?thesis using s0 unfolding ref_present_def by blast
  qed
qed

lemma ref_present_new:
  assumes "sessions d' = pre @ s\<lparr>qa_sequence := qa_sequence s @ [e], last_updated := t\<rparr> # post"
  shows "ref_present d' (session_id s) (seq e)"
proof -
  let ?s' = "s\<lparr>qa_sequence := qa_sequence s @ [e], last_updated := t\<rparr>"
  have "?s' \<in> set (sessions d') \<and> session_id ?s' = session_id s \<and>
        seq e \<in> set (map seq (qa_sequence ?s'))"
    using assms by simp
  then show ?thesis unfolding ref_present_def by blast
qed

lemma ran_upd_cases: "v \<in> ran (m(k \<mapsto> w)) \<Longrightarrow> v = w \<or> v \<in> ran m"
  by (auto simp: ran_def split: if_splits)

lemma add_topic_refs_ran:
  assumes "\<forall>rs \<in> ran m. \<forall>x \<in> set rs. P x" "P r"
  shows "\<forall>rs \<in> ran (add_topic_refs m tags r). \<forall>x \<in> set rs. P x"
  using assms(1)
proof (induction tags arbitrary: m)
  case Nil
  then show ?case by simp
next
  case (Cons tag tags)
  let ?old = "case m tag of None \<Rightarrow> [] | Some rs \<Rightarrow> rs"
  have old: "\<forall>x \<in> set ?old. P x"
  proof (cases "m tag")
    case None
    then show ?thesis by simp
  next
    case (Some rs)
    then have "rs \<in> ran m" by (auto simp: ran_def)
    then show ?thesis using Cons.prems Some by simp
  qed
  have "\<forall>rs \<in> ran (m(tag \<mapsto> ?old @ [r])). \<forall>x \<in> set rs. P x"
  proof
    fix rs assume "rs \<in> ran (m(tag \<mapsto> ?old @ [r]))"
    then consider "rs = ?old @ [r]" | "rs \<in> ran m" using ran_upd_cases by metis
    then show "\<forall>x \<in> set rs. P x"
    proof cases
      case 1
      then show ?thesis using old assms(2) by auto
    next
      case 2
      then show ?thesis using Cons.prems by blast
    qed
  qed
  then show ?case using Cons.IH by simp
qed

lemma update_indices_fields:
  "by_topic (update_indices E ix sid n q tags) =
     add_topic_refs (by_topic ix) (case tags of None \<Rightarrow> [] | Some ts \<Rightarrow> ts)
       \<lparr>ref_session = sid, ref_seq = n\<rparr>"
  "by_recency (update_indices E ix sid n q tags) =
     \<lparr>rec_session = sid, rec_seq = n, rec_timestamp = TStr (now E)\<rparr> # by_recency ix"
  "by_semantic_hash (update_indices E ix sid n q tags) =
     (by_semantic_hash ix)(hash_text E q \<mapsto> \<lparr>ref_session = sid, ref_seq = n\<rparr>)"
  by (simp_all add: update_indices_def Let_def)

text \<open>
  Claim C7. If every reference of the topic index, the recency list and the hash index
  names a (session, seq) pair present in the document, then the same holds after a
  successful \<open>add_qa\<close>; the references it adds name the entry it appended.
\<close>

theorem append_keeps_indices_consistent:
  assumes "index_consistent d" "fst (add_qa E (Doc d) sid usr q a tags sg) = Added n"
  shows "\<exists>d'. snd (add_qa E (Doc d) sid usr q a tags sg) = Doc d' \<and> index_consistent d' \<and>
           ref_present d' sid n \<and>
           by_recency (index d') =
             \<lparr>rec_session = sid, rec_seq = n, rec_timestamp = TStr (now E)\<rparr>
             # by_recency (index d) \<and>
           by_semantic_hash (index d') (hash_text E q) = Some \<lparr>ref_session = sid, ref_seq = n\<rparr>"
proof -
  from assms(2) obtain d' where d': "add_qa E (Doc d) sid usr q a tags sg = (Added n, Doc d')"
    using add_qa_fst_snd by blast
  from add_qa_Added [OF d'] obtain pre s post e where
    h: "sessions d = pre @ s # post" "session_id s = sid"
       "e = new_entry E n usr q a tags
              (clamp01 (case sg of None \<Rightarrow> score_significance q a | Some x \<Rightarrow> x))"
       "sessions d' = pre @ s\<lparr>qa_sequence := qa_sequence s @ [e], last_updated := now E\<rparr> # post"
       "index d' = update_indices E (index d) sid n q tags"
    by auto
  have "seq e = n" using h(3) by (simp add: new_entry_def)
  then have new: "ref_present d' sid n" using ref_present_new [OF h(4)] h(2) by simp
  have mono: "\<And>x m. ref_present d x m \<Longrightarrow> ref_present d' x m"
    using ref_present_mono [OF h(1) h(4)] .
  let ?P = "\<lambda>r. ref_present d' (ref_session r) (ref_seq r)"
  have t0: "\<forall>rs \<in> ran (by_topic (index d)). \<forall>r \<in> set rs. ?P r"
    using assms(1) mono unfolding index_consistent_def by blast
  have t: "\<forall>rs \<in> ran (by_topic (index d')). \<forall>r \<in> set rs. ?P r"
    unfolding h(5) update_indices_fields
    by (rule add_topic_refs_ran [OF t0]) (simp add: new)
  have r: "\<forall>r \<in> set (by_recency (index d')). ref_present d' (rec_session r) (rec_seq r)"
    using assms(1) mono new unfolding index_consistent_def h(5) update_indices_fields by auto
  have s: "\<forall>r \<in> ran (by_semantic_hash (index d')). ?P r"
  proof
    fix r assume "r \<in> ran (by_semantic_hash (index d'))"
    then consider "r = \<lparr>ref_session = sid, ref_seq = n\<rparr>" | "r \<in> ran (by_semantic_hash (index d))"
      unfolding h(5) update_indices_fields using ran_upd_cases by metis
    then show "?P r"
    proof cases
      case 1
      then show ?thesis using new by simp
    next
      case 2
      then show ?thesis using assms(1) mono unfolding index_consistent_def by blast
    qed
  qed
  have "index_consistent d'" using t r s unfolding index_consistent_def by blast
  then show ?thesis using d' new h(5) by (intro exI [of _ d']) (simp add: update_indices_fields)
qed

lemma ex_doc_consistent: "index_consistent ex_doc"
  by (simp add: index_consistent_def ref_present_def ex_doc_def ex_entry_def)

theorem append_keeps_indices_consistent_witness:
  "index_consistent ex_doc \<and>
   fst (add_qa ex_env (Doc ex_doc) (lit ''main'') (lit ''bob'') (lit ''what is new'')
          None (Some [lit ''news'']) None) = Added 2 \<and>
   (\<exists>d'. snd (add_qa ex_env (Doc ex_doc) (lit ''main'') (lit ''bob'') (lit ''what is new'')
          None (Some [lit ''news'']) None) = Doc d' \<and> index_consistent d' \<and>
      ref_present d' (lit ''main'') 2)"
proof -
  have h1: "index_consistent ex_doc" by (rule ex_doc_consistent)
  have h2: "fst (add_qa ex_env (Doc ex_doc) (lit ''main'') (lit ''bob'') (lit ''what is new'')
          None (Some [lit ''news'']) None) = Added 2"
    by (simp add: add_qa_Doc Let_def ex_doc_def ex_env_def ex_entry_def split: option.splits)
  show ?thesis using append_keeps_indices_consistent [OF h1 h2] h1 h2 by auto
qed

section \<open>The worked example of the scorer; failures of the query and of the analysis\<close>

lemma starts_with_iff: "starts_with s kw \<longleftrightarrow> (\<exists>r. s = kw @ r)"
  by (induction s kw rule: starts_with.induct) auto

lemma py_in_iff: "py_in kw s \<longleftrightarrow> (\<exists>p r. s = p @ kw @ r)"
proof (induction s)
  case Nil
  then show ?case by auto
next
  case (Cons c cs)
  show ?case
  proof
    assume "py_in kw (c # cs)"
    then consider "starts_with (c # cs) kw" | "py_in kw cs" by auto
    then show "\<exists>p r. c # cs = p @ kw @ r"
    proof cases
      case 1
      then obtain r where "c # cs = kw @ r" using starts_with_iff by blast
      then have "c # cs = [] @ kw @ r" by simp
      then show ?thesis by blast
    next
      case 2
      then obtain p r where "cs = p @ kw @ r" using Cons.IH by blast
      then have "c # cs = (c # p) @ kw @ r" by simp
      then show ?thesis by blast
    qed
  next
    assume "\<exists>p r. c # cs = p @ kw @ r"
    then obtain p r where e: "c # cs = p @ kw @ r" by blast
    show "py_in kw (c # cs)"
    proof (cases p)
      case Nil
      then have "starts_with (c # cs) kw" using e starts_with_iff by auto
      then show ?thesis by simp
    next
      case (Cons x xs)
      then have "cs = xs @ kw @ r" using e by simp
      then have "py_in kw cs" using Cons.IH by blast
      then show ?thesis by simp
    qed
  qed
qed

lemma lower_append: "lower (x @ y) = lower x @ lower y"
  by (simp add: lower_def)

lemma py_in_lower:
  assumes "lower kw = kw" "py_in kw s"
  shows "py_in kw (lower s)"
proof -
  obtain p r where "s = p @ kw @ r" using assms(2) py_in_iff by blast
  then have "lower s = lower p @ kw @ lower r" using assms(1) by (simp add: lower_append)
  then show ?thesis unfolding py_in_iff by blast
qed

lemma lit_append: "lit (x @ y) = lit x @ lit y"
  by (simp add: lit_def)

lemma ex_question_tokens: "length (extract_tokens ex_question) = 6"
  by code_simp

lemma ex_question_how_to: "py_in (lit ''how to'') (lower ex_question)"
  by code_simp

lemma lower_architecture: "lower (lit ''architecture'') = lit ''architecture''"
  by code_simp

lemma lower_important: "lower (lit ''important'') = lit ''important''"
  by code_simp

lemma architecture_technical: "lit ''architecture'' \<in> set technical_keywords"
  by (simp add: technical_keywords_def)

lemma important_important: "lit ''important'' \<in> set important_keywords"
  by (simp add: important_keywords_def)

lemma how_to_action: "lit ''how to'' \<in> set action_keywords"
  by (simp add: action_keywords_def)

lemma score_example:
  assumes "length a = 600" "py_in (lit ''architecture'') a" "py_in (lit ''important'') a"
  shows "length_factor a = 3 / 10 \<and> complexity_factor ex_question = 3 / 20 \<and>
         score_significance ex_question (Some a) = 19 / 20"
proof -
  have lf: "length_factor a = 3 / 10" using assms(1) by (simp add: length_factor_def)
  have cf: "complexity_factor ex_question = 3 / 20"
    by (simp add: complexity_factor_def ex_question_tokens)
  have t: "\<exists>kw \<in> set technical_keywords. py_in kw (lower a)"
    using architecture_technical py_in_lower [OF lower_architecture assms(2)] by blast
  have i: "\<exists>kw \<in> set important_keywords. py_in kw (lower a) \<or> py_in kw (lower ex_question)"
    using important_important py_in_lower [OF lower_important assms(3)] by blast
  have h: "\<exists>kw \<in> set action_keywords. py_in kw (lower a) \<or> py_in kw (lower ex_question)"
    using how_to_action ex_question_how_to by blast
  have "score_significance ex_question (Some a) = 19 / 20"
    unfolding score_significance_def Let_def option.case if_P [OF t] if_P [OF i] if_P [OF h] lf cf
    by simp
  then show ?thesis using lf cf by simp
qed

lemma ex_answer_length: "length ex_answer = 600"
  by (simp add: ex_answer_def lit_def)

lemma ex_answer_architecture: "py_in (lit ''architecture'') ex_answer"
proof -
  have "ex_answer = [] @ lit ''architecture'' @ (lit '' important'' @ replicate 578 120)"
    using lit_append [of "''architecture''" "'' important''"] by (simp add: ex_answer_def)
  then show ?thesis unfolding py_in_iff by blast
qed

lemma ex_answer_important: "py_in (lit ''important'') ex_answer"
proof -
  have "ex_answer = lit ''architecture '' @ lit ''important'' @ replicate 578 120"
    using lit_append [of "''architecture ''" "''important''"] by (simp add: ex_answer_def)
  then show ?thesis unfolding py_in_iff by blast
qed

text \<open>
  Claim C2, as stated, fails. For the question of the worked example and an answer of
  600 characters that contains \<open>architecture\<close> and \<open>important\<close>, the score is not 1, the
  question does not have 7 tokens and the complexity term is not 0.175.
\<close>

theorem worked_example_is_not_capped:
  "score_significance ex_question (Some ex_answer) \<noteq> 1 \<and>
   length (extract_tokens ex_question) \<noteq> 7 \<and>
   complexity_factor ex_question \<noteq> 175 / 1000"
  using score_example [OF ex_answer_length ex_answer_architecture ex_answer_important]
    ex_question_tokens by simp

text \<open>
  Claim C2, amended. For the question \<open>how to optimize the database architecture\<close> and
  every answer of length 600 that contains \<open>architecture\<close> and \<open>important\<close>, the question
  has 6 tokens, the length term is 0.3, the complexity term is 0.15, and with the
  technical, importance and actionable terms (the question contains \<open>how to\<close>) the score
  is 0.95, below the cap.
\<close>

theorem worked_example_score:
  assumes "length a = 600" "py_in (lit ''architecture'') a" "py_in (lit ''important'') a"
  shows "length (extract_tokens ex_question) = 6 \<and>
         length_factor a = 3 / 10 \<and> complexity_factor ex_question = 15 / 100 \<and>
         score_significance ex_question (Some a) = 95 / 100"
  using score_example [OF assms] ex_question_tokens by simp

theorem worked_example_score_witness:
  "length ex_answer = 600 \<and> py_in (lit ''architecture'') ex_answer \<and>
   py_in (lit ''important'') ex_answer \<and>
   length (extract_tokens ex_question) = 6 \<and>
   score_significance ex_question (Some ex_answer) = 95 / 100"
  using worked_example_score [OF ex_answer_length ex_answer_architecture ex_answer_important]
    ex_answer_length ex_answer_architecture ex_answer_important by simp

text \<open>
  Claim C1 says that \<open>find_relevant_pairs\<close> returns the matching entries sorted and
  truncated. On a document with one entry as \<open>add_qa\<close> writes it, whose timestamp is an
  ISO-8601 string, the sort key negates the string and the call raises \<open>TypeError\<close>
  instead of returning.
\<close>

theorem find_relevant_raises_on_string_timestamp:
  "find_relevant_pairs ex_doc (lit ''hello'') None 5 0 = Raise TypeError"
  by (simp add: find_relevant_pairs_def sort_relevant_def relevant_pairs_def skip_session_def
      skip_entry_def truthy_def make_hit_def neg_timestamp_def ex_doc_def ex_entry_def)

text \<open>
  Claim C3 says that a malformed metadata file is reported as an error value. When the
  first file matching \<open>*-qa.json\<close> is not valid JSON, \<open>read_extracted_files\<close> raises
  \<open>JSONDecodeError\<close>, and so does the script's sequence of read and analyze; the two
  lemmas after the theorem show the error values of the other two conditions.
\<close>

theorem malformed_metadata_raises:
  "read_extracted_files path (Dir (BadJSON # ms) qd ad) = Raise JSONDecodeError \<and>
   analyze_dir path (Dir (BadJSON # ms) qd ad) = Raise JSONDecodeError"
  by (simp add: read_extracted_files_def analyze_dir_def)

lemma missing_directory_is_error:
  "analyze_dir path NoDir = Return (Error (lit ''Directory not found: '' @ path))"
  by (simp add: read_extracted_files_def analyze_dir_def analyze_conversations_def)

lemma missing_metadata_is_error:
  "analyze_dir path (Dir [] qd ad) = Return (Error (lit ''No metadata file found in '' @ path))"
  by (simp add: read_extracted_files_def analyze_dir_def analyze_conversations_def)

section \<open>The significance filter of the query; quality patterns of the analysis\<close>

lemma relevant_pairs_iff:
  "h \<in> set (relevant_pairs d query sid ms) \<longleftrightarrow>
     (\<exists>s \<in> set (sessions d). \<not> skip_session sid s \<and>
        (\<exists>qa \<in> set (qa_sequence s). \<not> skip_entry ms qa \<and>
           h = make_hit (extract_tokens query) sid s qa))"
  by (auto simp: relevant_pairs_def)

lemma make_hit_fields:
  "hit_a (make_hit ts sid s qa) = a_text qa"
  "hit_significance (make_hit ts sid s qa) = a_significance qa"
  by (simp_all add: make_hit_def)

lemma sort_keys_length: "sort_keys hs = Return ks \<Longrightarrow> length ks = length hs"
  by (induction hs arbitrary: ks) (auto split: py.splits)

lemma sort_relevant_set: "sort_relevant hs = Return hs' \<Longrightarrow> set hs' = set hs"
proof -
  assume a: "sort_relevant hs = Return hs'"
  then obtain ks where ks: "sort_keys hs = Return ks"
    and hs': "hs' = map snd (sort_key fst (zip ks hs))"
    by (auto simp: sort_relevant_def split: py.splits)
  have "set hs' = snd ` set (zip ks hs)" using hs' by simp
  also have "\<dots> = set (map snd (zip ks hs))" by simp
  also have "\<dots> = set hs" using sort_keys_length [OF ks] by simp
  finally show ?thesis .
qed

lemma slice_to_subset: "set (slice_to j xs) \<subseteq> set xs"
  by (auto simp: slice_to_def dest: in_set_takeD)

lemma sort_relevant_length: "sort_relevant hs = Return hs' \<Longrightarrow> length hs' = length hs"
proof -
  assume a: "sort_relevant hs = Return hs'"
  then obtain ks where ks: "sort_keys hs = Return ks"
    and hs': "hs' = map snd (sort_key fst (zip ks hs))"
    by (auto simp: sort_relevant_def split: py.splits)
  show ?thesis using hs' sort_keys_length [OF ks] by simp
qed

lemma slice_to_all: "int (length xs) \<le> j \<Longrightarrow> slice_to j xs = xs"
  by (simp add: slice_to_def)

lemma find_relevant_all:
  assumes "find_relevant_pairs d query sid limit ms = Return hs"
    "int (length (relevant_pairs d query sid ms)) \<le> limit"
  shows "set hs = set (relevant_pairs d query sid ms)"
proof -
  from assms(1) obtain hs' where
    s: "sort_relevant (relevant_pairs d query sid ms) = Return hs'" and
    hs: "hs = slice_to limit hs'"
    by (auto simp: find_relevant_pairs_def split: py.splits)
  have "hs = hs'" using hs sort_relevant_length [OF s] assms(2) by (simp add: slice_to_all)
  then show ?thesis using sort_relevant_set [OF s] by simp
qed

lemma sort_keys_TStr:
  "h \<in> set hs \<Longrightarrow> hit_timestamp h = TStr t \<Longrightarrow> sort_keys hs = Raise TypeError"
proof (induction hs)
  case Nil
  then show ?case by simp
next
  case (Cons x xs)
  show ?case
  proof (cases "hit_timestamp x")
    case (TStr u)
    then show ?thesis by (simp add: neg_timestamp_def)
  next
    case (TNum r)
    then have "h \<in> set xs" using Cons.prems by auto
    then have "sort_keys xs = Raise TypeError" using Cons.IH Cons.prems(2) by blast
    then show ?thesis using TNum by (simp add: neg_timestamp_def)
  qed
qed

lemma find_relevant_string_timestamp:
  assumes "s \<in> set (sessions d)" "\<not> skip_session sid s" "qa \<in> set (qa_sequence s)"
    "\<not> skip_entry ms qa" "timestamp qa = TStr t"
  shows "find_relevant_pairs d query sid limit ms = Raise TypeError"
proof -
  let ?h = "make_hit (extract_tokens query) sid s qa"
  have "?h \<in> set (relevant_pairs d query sid ms)"
    unfolding relevant_pairs_iff using assms(1-4) by blast
  moreover have "hit_timestamp ?h = TStr t" using assms(5) by (simp add: make_hit_def)
  ultimately have "sort_keys (relevant_pairs d query sid ms) = Raise TypeError"
    by (rule sort_keys_TStr)
  then show ?thesis by (simp add: find_relevant_pairs_def sort_relevant_def)
qed

lemma find_relevant_subset:
  "find_relevant_pairs d query sid limit ms = Return hs \<Longrightarrow>
     set hs \<subseteq> set (relevant_pairs d query sid ms)"
  using sort_relevant_set slice_to_subset
  by (fastforce simp: find_relevant_pairs_def split: py.splits)

text \<open>
  The loop of \<open>find_relevant_pairs\<close> puts the dictionary of an entry, from a session that
  the session filter lets through, into the list \<open>relevant\<close> exactly when it is not the
  case that the entry has an answer and a significance below \<open>min_significance\<close>.
  Whenever the call returns, its results are among that list, and they are all of it
  when the limit does not cut.
\<close>

lemma relevant_pairs_filter:
  assumes "s \<in> set (sessions d)" "\<not> skip_session sid s" "qa \<in> set (qa_sequence s)"
  shows "(make_hit (extract_tokens query) sid s qa \<in> set (relevant_pairs d query sid ms) \<longleftrightarrow>
            \<not> (truthy (a_text qa) \<and> a_significance qa < ms)) \<and>
         (\<forall>hs. find_relevant_pairs d query sid limit ms = Return hs \<longrightarrow>
            set hs \<subseteq> set (relevant_pairs d query sid ms) \<and>
            (int (length (relevant_pairs d query sid ms)) \<le> limit \<longrightarrow>
               set hs = set (relevant_pairs d query sid ms)))"
proof (intro conjI allI impI)
  let ?h = "make_hit (extract_tokens query) sid s qa"
  show "?h \<in> set (relevant_pairs d query sid ms) \<longleftrightarrow>
          \<not> (truthy (a_text qa) \<and> a_significance qa < ms)"
  proof
    assume "?h \<in> set (relevant_pairs d query sid ms)"
    then obtain s' qa' where
      "\<not> skip_entry ms qa'" "?h = make_hit (extract_tokens query) sid s' qa'"
      unfolding relevant_pairs_iff by blast
    then have "\<not> skip_entry ms qa'" "a_text qa = a_text qa'"
      "a_significance qa = a_significance qa'"
      using make_hit_fields by metis+
    then show "\<not> (truthy (a_text qa) \<and> a_significance qa < ms)"
      by (simp add: skip_entry_def)
  next
    assume "\<not> (truthy (a_text qa) \<and> a_significance qa < ms)"
    then have "\<not> skip_entry ms qa" by (simp add: skip_entry_def)
    then show "?h \<in> set (relevant_pairs d query sid ms)"
      unfolding relevant_pairs_iff using assms by blast
  qed
next
  fix hs assume r: "find_relevant_pairs d query sid limit ms = Return hs"
  then show "set hs \<subseteq> set (relevant_pairs d query sid ms)" by (rule find_relevant_subset)
  assume "int (length (relevant_pairs d query sid ms)) \<le> limit"
  with r show "set hs = set (relevant_pairs d query sid ms)" by (rule find_relevant_all)
qed

lemma ex_num_relevant:
  "relevant_pairs ex_num_doc (lit ''hello'') None (1 / 2) =
     [make_hit (extract_tokens (lit ''hello'')) None ex_num_session ex_high]"
  by (simp add: relevant_pairs_def ex_num_doc_def skip_session_def truthy_def skip_entry_def
      ex_num_session_def ex_low_def ex_high_def lit_def)

lemma ex_num_find:
  "find_relevant_pairs ex_num_doc (lit ''hello'') None 5 (1 / 2) =
     Return [make_hit (extract_tokens (lit ''hello'')) None ex_num_session ex_high]"
  unfolding find_relevant_pairs_def ex_num_relevant
  by (simp add: sort_relevant_def neg_timestamp_def make_hit_def ex_high_def slice_to_def)

lemma ex_six_mean: "sum_list (map ar_significance ex_six_answers) / 6 = 9 / 10"
  by (simp add: ex_six_answers_def)

text \<open>
  Claim C9 says that the analysis of a snapshot whose metadata lists 6 answers with mean
  significance 0.9 has the pattern \<open>High quality conversation period\<close>. The gate of the
  pattern block counts the answer files read, while the mean is taken over the answers
  of the metadata: for the example snapshot, whose metadata lists six answers with mean
  0.9 and whose directory \<open>answers/\<close> is absent, the patterns of the analysis do not
  include it.
\<close>

theorem high_quality_pattern_absent_without_answer_files:
  "length ex_six_answers = 6 \<and>
   sum_list (map ar_significance ex_six_answers) / 6 = 9 / 10 \<and>
   analyze_dir (lit ''snap'') (Dir [Parsed ex_snapshot] None None) = Return (Ok ex_analysis) \<and>
   lit ''High quality conversation period'' \<notin> set (patterns ex_analysis)"
  by (simp add: analyze_dir_def read_extracted_files_def analyze_conversations_def Let_def
      ex_snapshot_def ex_six_answers_def ex_analysis_def quality_patterns_def high_answers_def
      low_answers_def missing_seqs_def count_topics_def topic_patterns_def)

text \<open>
  Where more than 5 answer files were read, as for every snapshot that has one file per
  listed answer, the pattern is there and the high and low lists are as the claim says.
\<close>

lemma high_quality_pattern_with_answer_files:
  assumes "snap_answers (ex_metadata d) = Some as" "length as = 6"
    "sum_list (map ar_significance as) / 6 = 9 / 10" "length (ex_answers d) > 5"
  shows "\<exists>an. analyze_conversations (Ok d) = Return (Ok an) \<and>
           map hr_seq (high_significance_answers an) =
             map ar_seq (filter (\<lambda>a. ar_significance a \<ge> 85 / 100) as) \<and>
           map lr_seq (low_significance_answers an) =
             map ar_seq (filter (\<lambda>a. ar_significance a < 5 / 10) as) \<and>
           lit ''High quality conversation period'' \<in> set (patterns an)"
proof -
  have q: "quality_patterns (length (ex_answers d)) as =
             Return [lit ''High quality conversation period'']"
    using assms(2,3,4) by (simp add: quality_patterns_def Let_def)
  have lo: "filter (\<lambda>a. \<not> ar_significance a \<ge> 85 / 100 \<and> ar_significance a < 5 / 10) as =
            filter (\<lambda>a. ar_significance a < 5 / 10) as"
    by (rule filter_cong) auto
  show ?thesis
    using assms(1) q lo
    by (simp add: analyze_conversations_def Let_def high_answers_def low_answers_def comp_def)
qed

lemma high_quality_pattern_on_example:
  "snap_answers (ex_metadata ex_extracted) = Some ex_six_answers \<and> length ex_six_answers = 6 \<and>
   sum_list (map ar_significance ex_six_answers) / 6 = 9 / 10 \<and>
   length (ex_answers ex_extracted) > 5 \<and>
   (\<exists>an. analyze_conversations (Ok ex_extracted) = Return (Ok an) \<and>
      map hr_seq (high_significance_answers an) = [1, 2, 3, 4, 5, 6] \<and>
      map lr_seq (low_significance_answers an) = [] \<and>
      lit ''High quality conversation period'' \<in> set (patterns an))"
proof -
  have h1: "snap_answers (ex_metadata ex_extracted) = Some ex_six_answers"
    by (simp add: ex_extracted_def ex_snapshot_def)
  have h2: "length ex_six_answers = 6" by (simp add: ex_six_answers_def)
  have h4: "length (ex_answers ex_extracted) > 5"
    by (simp add: ex_extracted_def ex_answer_files_def)
  have f1: "map ar_seq (filter (\<lambda>a. ar_significance a \<ge> 85 / 100) ex_six_answers)
            = [1, 2, 3, 4, 5, 6]"
    by (simp add: ex_six_answers_def)
  have f2: "map ar_seq (filter (\<lambda>a. ar_significance a < 5 / 10) ex_six_answers) = []"
    by (simp add: ex_six_answers_def)
  show ?thesis
    using high_quality_pattern_with_answer_files [OF h1 h2 ex_six_mean h4] h1 h2 ex_six_mean h4 unfolding f1 f2 by simp
qed

section \<open>Results of the query on written documents; the recent context\<close>

lemma ex_str_relevant:
  "relevant_pairs ex_str_doc (lit ''hello'') None (1 / 2) =
     [make_hit (extract_tokens (lit ''hello'')) None ex_str_session ex_str_high,
      make_hit (extract_tokens (lit ''hello'')) None ex_str_session ex_str_open]"
  by (simp add: relevant_pairs_def ex_str_doc_def skip_session_def truthy_def skip_entry_def
      ex_str_session_def ex_str_low_def ex_str_high_def ex_str_open_def lit_def)

text \<open>
  Claim C6 says that \<open>find_relevant_pairs\<close> leaves an answered entry out of its results
  exactly when its significance is below \<open>min_significance\<close>, and never leaves out an
  entry without answer. On a document as \<open>add_qa\<close> writes it and with the minimum 0.5,
  the loop keeps the answered entry of significance 0.9 and the entry without answer
  and drops the answered entry of significance 0.2; the sort then negates their string
  timestamps and the call raises \<open>TypeError\<close>, so neither kept entry is returned.
\<close>

theorem filtered_query_raises_instead_of_returning:
  "relevant_pairs ex_str_doc (lit ''hello'') None (1 / 2) =
     [make_hit (extract_tokens (lit ''hello'')) None ex_str_session ex_str_high,
      make_hit (extract_tokens (lit ''hello'')) None ex_str_session ex_str_open] \<and>
   find_relevant_pairs ex_str_doc (lit ''hello'') None 5 (1 / 2) = Raise TypeError"
proof -
  have "ex_str_session \<in> set (sessions ex_str_doc)" by (simp add: ex_str_doc_def)
  moreover have "\<not> skip_session None ex_str_session" by (simp add: skip_session_def truthy_def)
  moreover have "ex_str_open \<in> set (qa_sequence ex_str_session)"
    by (simp add: ex_str_session_def)
  moreover have "\<not> skip_entry (1 / 2) ex_str_open"
    by (simp add: skip_entry_def truthy_def ex_str_open_def)
  moreover have "timestamp ex_str_open = TStr (lit ''2024-05-01T09:10:00.000000Z'')"
    by (simp add: ex_str_open_def)
  ultimately have "find_relevant_pairs ex_str_doc (lit ''hello'') None 5 (1 / 2) = Raise TypeError"
    by (rule find_relevant_string_timestamp)
  then show ?thesis using ex_str_relevant by simp
qed

lemma quality_gate_divides_by_zero:
  assumes "snap_answers (ex_metadata d) = Some [] \<or> snap_answers (ex_metadata d) = None"
    "length (ex_answers d) > 5"
  shows "analyze_conversations (Ok d) = Raise ZeroDivisionError"
  using assms by (auto simp: analyze_conversations_def Let_def quality_patterns_def)

lemma py_in_self: "py_in x (x @ r)"
proof -
  have "x @ r = [] @ x @ r" by simp
  then show ?thesis unfolding py_in_iff by blast
qed

lemma py_in_join: "x \<in> set xs \<Longrightarrow> py_in x (join sep xs)"
proof (induction sep xs rule: join.induct)
  case (1 sep)
  then show ?case by simp
next
  case (2 sep y)
  then have "join sep [y] = [] @ x @ []" by simp
  then show ?case unfolding py_in_iff by blast
next
  case (3 sep y z zs)
  show ?case
  proof (cases "x = y")
    case True
    then have "join sep (y # z # zs) = [] @ x @ (sep @ join sep (z # zs))" by simp
    then show ?thesis unfolding py_in_iff by blast
  next
    case False
    then have "x \<in> set (z # zs)" using "3.prems" by auto
    then have "py_in x (join sep (z # zs))" using "3.IH" by blast
    then obtain p r where "join sep (z # zs) = p @ x @ r" unfolding py_in_iff by blast
    then have "join sep (y # z # zs) = (y @ sep @ p) @ x @ r" by simp
    then show ?thesis unfolding py_in_iff by blast
  qed
qed

lemma py_in_nonempty: "py_in x t \<Longrightarrow> x \<noteq> [] \<Longrightarrow> t \<noteq> []"
  by (cases t) auto

lemma header_in_block:
  "qs \<noteq> [] \<Longrightarrow> lit ''## Recent Conversation Context'' \<in> set (block_lines qs)"
  by (simp add: block_lines_def)

lemma in_singleton_append: "x \<in> set ([x] @ ys)"
  by simp

lemma entry_lines_in_block:
  assumes "qa \<in> set qs" "x \<in> set (entry_lines qa)"
  shows "x \<in> set (block_lines qs)"
proof -
  have ne: "qs \<noteq> []" using assms(1) by auto
  have "x \<in> set (concat (map entry_lines qs))" using assms by auto
  then show ?thesis using ne by (simp add: block_lines_def)
qed

lemma question_line_in_block:
  assumes "qa \<in> set qs"
  shows "lit ''**['' @ str_int (seq qa) @ lit '']** '' @ q_text qa \<in> set (block_lines qs)"
proof -
  have m: "lit ''**['' @ str_int (seq qa) @ lit '']** '' @ q_text qa \<in> set (entry_lines qa)"
    unfolding entry_lines_def by (rule in_singleton_append)
  show ?thesis by (rule entry_lines_in_block [OF assms m])
qed

lemma answer_line_in_block:
  assumes "qa \<in> set qs" "a_text qa = Some ans" "ans \<noteq> []"
  shows "lit ''> '' @ (if length ans > 200 then take 200 ans @ lit ''...'' else ans)
           \<in> set (block_lines qs)"
proof -
  have "lit ''> '' @ (if length ans > 200 then take 200 ans @ lit ''...'' else ans)
          \<in> set (entry_lines qa)"
    using assms(2,3) by (simp add: entry_lines_def truthy_def)
  then show ?thesis using assms(1) by (intro entry_lines_in_block)
qed

text \<open>
  Claim C10. For a session that the document knows under its id and whose entry
  sequence is not empty, \<open>get_recent_context\<close> with window 0 returns one item for every
  entry, in the original order, with the entry's sequence number, question, answer and
  timestamp, and not the empty list. \<open>load_recent_qa_context\<close> with window 0 returns a
  text that is not empty and contains the heading, the question line of every entry of
  the session and the answer line of every answered entry.
\<close>

theorem recent_context_window_zero_is_whole_sequence:
  assumes "first_session d sid = Some s" "qa_sequence s \<noteq> []"
  shows "get_recent_context d sid 0 = map recent_view (qa_sequence s) \<and>
         length (get_recent_context d sid 0) = length (qa_sequence s) \<and>
         get_recent_context d sid 0 \<noteq> [] \<and>
         map rc_seq (get_recent_context d sid 0) = map seq (qa_sequence s) \<and>
         map rc_q (get_recent_context d sid 0) = map q_text (qa_sequence s) \<and>
         map rc_a (get_recent_context d sid 0) = map a_text (qa_sequence s) \<and>
         map rc_timestamp (get_recent_context d sid 0) = map timestamp (qa_sequence s) \<and>
         load_recent_qa_context (Doc d) sid 0 =
           Return (join [10]
             (concat (map (\<lambda>s. block_lines (qa_sequence s))
                          (filter (\<lambda>s. session_id s = sid) (sessions d))))) \<and>
         (\<exists>out. load_recent_qa_context (Doc d) sid 0 = Return out \<and> out \<noteq> [] \<and>
            py_in (lit ''## Recent Conversation Context'') out \<and>
            (\<forall>qa \<in> set (qa_sequence s).
               py_in (lit ''**['' @ str_int (seq qa) @ lit '']** '' @ q_text qa) out \<and>
               (\<forall>ans. a_text qa = Some ans \<and> ans \<noteq> [] \<longrightarrow>
                  py_in (lit ''> '' @ (if length ans > 200 then take 200 ans @ lit ''...''
                                        else ans)) out)))"
proof -
  from assms(1) obtain pre post where
    h: "sessions d = pre @ s # post" "sid \<notin> set (map session_id pre)" "session_id s = sid"
    using find_Some_split unfolding first_session_def by blast
  have 1: "get_recent_context d sid 0 = map recent_view (qa_sequence s)"
    using recent_in_split [OF h(2,3)] h(1) by (simp add: get_recent_context_def)
  have f: "map rc_seq (map recent_view (qa_sequence s)) = map seq (qa_sequence s)"
    "map rc_q (map recent_view (qa_sequence s)) = map q_text (qa_sequence s)"
    "map rc_a (map recent_view (qa_sequence s)) = map a_text (qa_sequence s)"
    "map rc_timestamp (map recent_view (qa_sequence s)) = map timestamp (qa_sequence s)"
    by (simp_all add: recent_view_def comp_def)
  let ?lines = "concat (map (\<lambda>s. block_lines (qa_sequence s))
                          (filter (\<lambda>s. session_id s = sid) (sessions d)))"
  have 2: "load_recent_qa_context (Doc d) sid 0 = Return (join [10] ?lines)"
    by (simp add: load_recent_qa_context_def slice_from_0)
  have blk: "set (block_lines (qa_sequence s)) \<subseteq> set ?lines"
    using h(1,3) by auto
  have hd: "py_in (lit ''## Recent Conversation Context'') (join [10] ?lines)"
    using header_in_block [OF assms(2)] blk by (intro py_in_join) blast
  have ne: "join [10] ?lines \<noteq> []"
    using py_in_nonempty [OF hd] by (simp add: lit_def)
  have q: "\<forall>qa \<in> set (qa_sequence s).
             py_in (lit ''**['' @ str_int (seq qa) @ lit '']** '' @ q_text qa) (join [10] ?lines) \<and>
             (\<forall>ans. a_text qa = Some ans \<and> ans \<noteq> [] \<longrightarrow>
                py_in (lit ''> '' @ (if length ans > 200 then take 200 ans @ lit ''...''
                                      else ans)) (join [10] ?lines))"
  proof (intro ballI conjI allI impI)
    fix qa assume qa: "qa \<in> set (qa_sequence s)"
    show "py_in (lit ''**['' @ str_int (seq qa) @ lit '']** '' @ q_text qa) (join [10] ?lines)"
      using question_line_in_block [OF qa] blk by (intro py_in_join) blast
    fix ans assume "a_text qa = Some ans \<and> ans \<noteq> []"
    then show "py_in (lit ''> '' @ (if length ans > 200 then take 200 ans @ lit ''...''
                                      else ans)) (join [10] ?lines)"
      using answer_line_in_block [OF qa, of ans] blk by (intro py_in_join) blast
  qed
  have 3: "\<exists>out. load_recent_qa_context (Doc d) sid 0 = Return out \<and> out \<noteq> [] \<and>
            py_in (lit ''## Recent Conversation Context'') out \<and>
            (\<forall>qa \<in> set (qa_sequence s).
               py_in (lit ''**['' @ str_int (seq qa) @ lit '']** '' @ q_text qa) out \<and>
               (\<forall>ans. a_text qa = Some ans \<and> ans \<noteq> [] \<longrightarrow>
                  py_in (lit ''> '' @ (if length ans > 200 then take 200 ans @ lit ''...''
                                        else ans)) out))"
    using 2 ne hd q by blast
  show ?thesis using 1 2 3 f assms(2) by simp
qed

lemma str_int_1: "str_int 1 = lit ''1''"
  by (simp add: str_int_def digits.simps [of "Suc 0"] lit_def)

lemma str_int_2: "str_int 2 = lit ''2''"
  by (simp add: str_int_def digits.simps [of 2] lit_def)

lemma ex_num_load:
  "load_recent_qa_context (Doc ex_num_doc) (lit ''main'') 0 = Return ex_num_context"
  by (simp add: load_recent_qa_context_def slice_from_0 ex_num_doc_def ex_num_session_def
      block_lines_def entry_lines_def truthy_def ex_low_def ex_high_def str_int_1 str_int_2
      ex_num_context_def lit_def)

theorem recent_context_window_zero_is_whole_sequence_witness:
  "first_session ex_num_doc (lit ''main'') = Some ex_num_session \<and>
   qa_sequence ex_num_session \<noteq> [] \<and>
   ex_low \<in> set (qa_sequence ex_num_session) \<and>
   a_text ex_low = Some (lit ''hi'') \<and> lit ''hi'' \<noteq> [] \<and>
   map rc_seq (get_recent_context ex_num_doc (lit ''main'') 0) = [1, 2] \<and>
   map rc_q (get_recent_context ex_num_doc (lit ''main'') 0) =
     [lit ''hello world'', lit ''hello again''] \<and>
   map rc_a (get_recent_context ex_num_doc (lit ''main'') 0) =
     [Some (lit ''hi''), Some (lit ''use the api'')] \<and>
   load_recent_qa_context (Doc ex_num_doc) (lit ''main'') 0 = Return ex_num_context \<and>
   ex_num_context \<noteq> [] \<and>
   py_in (lit ''**['' @ str_int 1 @ lit '']** '' @ lit ''hello world'') ex_num_context \<and>
   py_in (lit ''> '' @ lit ''hi'') ex_num_context"
proof -
  have h1: "first_session ex_num_doc (lit ''main'') = Some ex_num_session"
    by (simp add: first_session_def ex_num_doc_def ex_num_session_def)
  have h2: "qa_sequence ex_num_session \<noteq> []" by (simp add: ex_num_session_def)
  have h3: "ex_low \<in> set (qa_sequence ex_num_session)" by (simp add: ex_num_session_def)
  have h4: "a_text ex_low = Some (lit ''hi'')" "lit ''hi'' \<noteq> []"
    by (simp_all add: ex_low_def lit_def)
  have f: "seq ex_low = 1" "q_text ex_low = lit ''hello world''" "length (lit ''hi'') = 2"
    by (simp_all add: ex_low_def lit_def)
  note t = recent_context_window_zero_is_whole_sequence [OF h1 h2]
  from t obtain out where
    tx: "load_recent_qa_context (Doc ex_num_doc) (lit ''main'') 0 = Return out" "out \<noteq> []"
      "\<forall>qa \<in> set (qa_sequence ex_num_session).
         py_in (lit ''**['' @ str_int (seq qa) @ lit '']** '' @ q_text qa) out \<and>
         (\<forall>ans. a_text qa = Some ans \<and> ans \<noteq> [] \<longrightarrow>
            py_in (lit ''> '' @ (if length ans > 200 then take 200 ans @ lit ''...''
                                  else ans)) out)"
    by blast
  have e: "out = ex_num_context" using tx(1) ex_num_load by simp
  have p1: "py_in (lit ''**['' @ str_int 1 @ lit '']** '' @ lit ''hello world'') ex_num_context"
    using tx(3) h3 f e by fastforce
  have p2: "py_in (lit ''> '' @ lit ''hi'') ex_num_context"
    using tx(3) h3 h4 f e by fastforce
  have g: "map rc_seq (get_recent_context ex_num_doc (lit ''main'') 0) = [1, 2]"
    "map rc_q (get_recent_context ex_num_doc (lit ''main'') 0) =
       [lit ''hello world'', lit ''hello again'']"
    "map rc_a (get_recent_context ex_num_doc (lit ''main'') 0) =
       [Some (lit ''hi''), Some (lit ''use the api'')]"
  proof -
    have v: "map seq (qa_sequence ex_num_session) = [1, 2]"
      "map q_text (qa_sequence ex_num_session) = [lit ''hello world'', lit ''hello again'']"
      "map a_text (qa_sequence ex_num_session) = [Some (lit ''hi''), Some (lit ''use the api'')]"
      by (simp_all add: ex_num_session_def ex_low_def ex_high_def)
    from t have
      "map rc_seq (get_recent_context ex_num_doc (lit ''main'') 0) =
         map seq (qa_sequence ex_num_session)"
      "map rc_q (get_recent_context ex_num_doc (lit ''main'') 0) =
         map q_text (qa_sequence ex_num_session)"
      "map rc_a (get_recent_context ex_num_doc (lit ''main'') 0) =
         map a_text (qa_sequence ex_num_session)"
      by blast+
    then show
      "map rc_seq (get_recent_context ex_num_doc (lit ''main'') 0) = [1, 2]"
      "map rc_q (get_recent_context ex_num_doc (lit ''main'') 0) =
         [lit ''hello world'', lit ''hello again'']"
      "map rc_a (get_recent_context ex_num_doc (lit ''main'') 0) =
         [Some (lit ''hi''), Some (lit ''use the api'')]"
      unfolding v by blast+
  qed
  show ?thesis using h1 h2 h3 h4 g ex_num_load tx(2) e p1 p2 by simp
qed

end
